theory Spec2Isabelle
  imports Main "HOL-Library.Multiset"
begin

section \<open>Strings and host capabilities\<close>

text \<open>
  A JavaScript string is a sequence of UTF-16 code units, modelled as a list of naturals.
  \<open>js\<close> turns an Isabelle literal into such a string (one code unit per ASCII character).
\<close>

type_synonym jsstring = "nat list"

definition js :: "string \<Rightarrow> jsstring" where
  "js s = map of_char s"

text \<open>\<open>strip_prefix p s\<close> is the rest of \<open>s\<close> after its prefix \<open>p\<close>, when \<open>s\<close> starts with \<open>p\<close>.\<close>

fun strip_prefix :: "jsstring \<Rightarrow> jsstring \<Rightarrow> jsstring option" where
  "strip_prefix [] s = Some s"
| "strip_prefix (p # ps) [] = None"
| "strip_prefix (p # ps) (c # cs) = (if p = c then strip_prefix ps cs else None)"



section \<open>Data model\<close>

text \<open>
  A tab record. A field that is absent (or \<open>undefined\<close>) is \<open>None\<close>. Import documents can
  carry tabs without \<open>id\<close>, \<open>domain\<close>, \<open>dateAdded\<close> and so on, so every field is optional.
\<close>

record tab =
  tab_id :: "jsstring option"
  url :: "jsstring option"
  domain :: "jsstring option"
  title :: "jsstring option"
  description :: "jsstring option"
  labels :: "jsstring list option"
  dateAdded :: "int option"
  dateModified :: "int option"
  favicon :: "jsstring option"


text \<open>The argument of \<open>saveTab\<close>.\<close>

record tab_data =
  td_url :: "jsstring option"
  td_title :: "jsstring option"
  td_description :: "jsstring option"
  td_labels :: "jsstring list option"
  td_favicon :: "jsstring option"

record label =
  label_id :: "jsstring option"
  name :: "jsstring option"
  color :: "jsstring option"
  isCustom :: "bool option"

record settings =
  storageMode :: "jsstring option"
  defaultLabels :: "jsstring list option"
  groupsCollapsed :: "(jsstring \<times> bool) list option"

text \<open>
  One \<open>chrome.storage\<close> area, restricted to the three persisted keys \<open>settings\<close>, \<open>tabs\<close> and
  \<open>customLabels\<close>; \<open>None\<close> is a key that is not stored.
\<close>

record area =
  a_settings :: "settings option"
  a_tabs :: "tab list option"
  a_customLabels :: "label list option"

datatype area_name = Local | Sync

text \<open>
  The whole state: the two areas and the module variable \<open>cachedStorageMode\<close>
  (\<open>None\<close> is \<open>null\<close>).
\<close>

record world =
  local :: area
  sync :: area
  cachedStorageMode :: "jsstring option"

text \<open>
  JavaScript truthiness of an optional string (\<open>undefined\<close> and \<open>''\<close> are falsy) and of an
  optional number (\<open>undefined\<close> and \<open>0\<close> are falsy); the destructuring default \<open>= []\<close>.
\<close>

definition truthy :: "jsstring option \<Rightarrow> bool" where
  "truthy v = (case v of None \<Rightarrow> False | Some s \<Rightarrow> s \<noteq> [])"

definition truthy_num :: "int option \<Rightarrow> bool" where
  "truthy_num v = (case v of None \<Rightarrow> False | Some n \<Rightarrow> n \<noteq> 0)"

definition or_empty :: "'a list option \<Rightarrow> 'a list" where
  "or_empty v = (case v of None \<Rightarrow> [] | Some xs \<Rightarrow> xs)"

text \<open>
  The built-ins of the JavaScript host that the library calls but does not define:
  \<open>String.prototype.toLowerCase\<close>, \<open>toUpperCase\<close>, \<open>normalize('NFD')\<close>, and the
  \<open>URL\<close> constructor followed by \<open>.hostname\<close> (\<open>None\<close> when the constructor throws),
  and \<open>JSON.stringify\<close> on the object that a storage area returns for the keys
  \<open>tabs\<close> and \<open>customLabels\<close>.
  They are parameters of the model. \<open>Date.now()\<close> and \<open>crypto.randomUUID()\<close> change from
  call to call and are arguments of the operations that call them.
\<close>

record host =
  toLowerCase :: "jsstring \<Rightarrow> jsstring"
  toUpperCase :: "jsstring \<Rightarrow> jsstring"
  normalizeNFD :: "jsstring \<Rightarrow> jsstring"
  url_hostname :: "jsstring \<Rightarrow> jsstring option"
  json_stringify :: "area \<Rightarrow> jsstring"

text \<open>Errors thrown by the library (or by the host on its behalf).\<close>

datatype verror =
    NoDataProvided
  | MissingDataProperty
  | InvalidTabsArray
  | TabMissingUrl nat
  | TabMissingTitle nat
  | InvalidCustomLabels

datatype error =
    TypeError
  | TabNotFound
  | DataTooLarge
  | InvalidImportData "verror list"

section \<open>domain-grouper.js\<close>

text \<open>
  \<open>extractDomain(url)\<close>: \<open>try { return new URL(url).hostname } catch { return 'other' }\<close>.
\<close>

definition extractDomain :: "host \<Rightarrow> jsstring \<Rightarrow> jsstring" where
  "extractDomain h u = (case url_hostname h u of Some hostname \<Rightarrow> hostname | None \<Rightarrow> js ''other'')"

section \<open>storage.js\<close>

definition DEFAULT_SETTINGS :: settings where
  "DEFAULT_SETTINGS =
     \<lparr> storageMode = Some (js ''local''), defaultLabels = Some [], groupsCollapsed = Some [] \<rparr>"

definition area_of :: "area_name \<Rightarrow> world \<Rightarrow> area" where
  "area_of a w = (case a of Local \<Rightarrow> local w | Sync \<Rightarrow> sync w)"

definition area_update :: "area_name \<Rightarrow> (area \<Rightarrow> area) \<Rightarrow> world \<Rightarrow> world" where
  "area_update a f w =
     (case a of Local \<Rightarrow> w\<lparr>local := f (local w)\<rparr> | Sync \<Rightarrow> w\<lparr>sync := f (sync w)\<rparr>)"

text \<open>
  The host's \<open>area.set(items)\<close> stores every key that \<open>items\<close> has and leaves the other keys
  alone; \<open>area.remove(['tabs', 'customLabels'])\<close> deletes those two keys. The host calls
  are assumed to succeed.
\<close>

definition area_set :: "area \<Rightarrow> area \<Rightarrow> area" where
  "area_set items a =
     \<lparr> a_settings = (case a_settings items of None \<Rightarrow> a_settings a | Some v \<Rightarrow> Some v),
       a_tabs = (case a_tabs items of None \<Rightarrow> a_tabs a | Some v \<Rightarrow> Some v),
       a_customLabels =
         (case a_customLabels items of None \<Rightarrow> a_customLabels a | Some v \<Rightarrow> Some v) \<rparr>"


definition tabs_item :: "tab list \<Rightarrow> area" where
  "tabs_item ts = \<lparr> a_settings = None, a_tabs = Some ts, a_customLabels = None \<rparr>"

definition customLabels_item :: "label list \<Rightarrow> area" where
  "customLabels_item ls = \<lparr> a_settings = None, a_tabs = None, a_customLabels = Some ls \<rparr>"

text \<open>
  \<open>getStorageArea()\<close>: on the first call the mode is read from the settings in the local
  area (\<open>result.settings?.storageMode || 'local'\<close>) and cached.
\<close>

definition getStorageArea :: "world \<Rightarrow> world \<times> area_name" where
  "getStorageArea w =
     (let w1 =
        (if cachedStorageMode w = None
         then w\<lparr>cachedStorageMode :=
                 Some (case a_settings (local w) of
                         None \<Rightarrow> js ''local''
                       | Some s \<Rightarrow> (if truthy (storageMode s) then or_empty (storageMode s)
                                   else js ''local''))\<rparr>
         else w)
      in (w1, if cachedStorageMode w1 = Some (js ''sync'') then Sync else Local))"

text \<open>
  \<open>get(keys)\<close> and \<open>set(items)\<close>. The result of \<open>get\<close> is given as the content of the current
  area; the caller picks the key it asked for.
\<close>

definition storage_get :: "world \<Rightarrow> world \<times> area" where
  "storage_get w = (let (w1, storage) = getStorageArea w in (w1, area_of storage w1))"

definition storage_set :: "area \<Rightarrow> world \<Rightarrow> world" where
  "storage_set items w =
     (let (w1, storage) = getStorageArea w in area_update storage (area_set items) w1)"

text \<open>\<open>getSettings()\<close>: \<open>{ ...DEFAULT_SETTINGS, ...result.settings }\<close>, always from the local area.\<close>

definition getSettings :: "world \<Rightarrow> settings" where
  "getSettings w =
     (case a_settings (local w) of
        None \<Rightarrow> DEFAULT_SETTINGS
      | Some s \<Rightarrow>
          \<lparr> storageMode =
              (case storageMode s of None \<Rightarrow> storageMode DEFAULT_SETTINGS | Some v \<Rightarrow> Some v),
            defaultLabels =
              (case defaultLabels s of None \<Rightarrow> defaultLabels DEFAULT_SETTINGS | Some v \<Rightarrow> Some v),
            groupsCollapsed =
              (case groupsCollapsed s of None \<Rightarrow> groupsCollapsed DEFAULT_SETTINGS
               | Some v \<Rightarrow> Some v) \<rparr>)"



section \<open>tabs-manager.js\<close>

text \<open>The tab operations; the sources hold them in the second half of \<open>lib/storage.js\<close>.\<close>

definition getAllTabs :: "world \<Rightarrow> world \<times> tab list" where
  "getAllTabs w = (let (w1, r) = storage_get w in (w1, or_empty (a_tabs r)))"

text \<open>\<open>saveTab(tabData)\<close>; \<open>uuid\<close> is the value of \<open>crypto.randomUUID()\<close>, \<open>now\<close> of \<open>Date.now()\<close>.\<close>

definition to_string :: "jsstring option \<Rightarrow> jsstring" where
  "to_string v = (case v of None \<Rightarrow> js ''undefined'' | Some s \<Rightarrow> s)"

definition saveTab :: "host \<Rightarrow> jsstring \<Rightarrow> int \<Rightarrow> tab_data \<Rightarrow> world \<Rightarrow> world \<times> tab" where
  "saveTab h uuid now tabData w =
     (let (w1, r) = storage_get w;
          tabs = or_empty (a_tabs r);
          newTab = \<lparr> tab_id = Some uuid,
                     url = td_url tabData,
                     domain = Some (extractDomain h (to_string (td_url tabData))),
                     title = td_title tabData,
                     description =
                       (if truthy (td_description tabData) then td_description tabData else Some []),
                     labels = Some (or_empty (td_labels tabData)),
                     dateAdded = Some now,
                     dateModified = None,
                     favicon = (if truthy (td_favicon tabData) then td_favicon tabData else Some []) \<rparr>
      in (storage_set (tabs_item (tabs @ [newTab])) w1, newTab))"





section \<open>import-export.js\<close>

text \<open>
  A property of an import document that should hold an array: \<open>Missing\<close> stands for an
  absent or falsy value, \<open>NotArray\<close> for a truthy value that is not an array.
\<close>

datatype 'a jsfield = Missing | NotArray | Arr "'a list"

record doc_data =
  d_tabs :: "tab jsfield"
  d_customLabels :: "label jsfield"
  d_settings :: "settings option"

record document =
  version :: "jsstring option"
  exportDate :: "jsstring option"
  data :: "doc_data option"

record import_result =
  tabsImported :: int
  tabsSkipped :: int
  labelsImported :: int

text \<open>\<open>exportToJSON()\<close>; \<open>isoDate\<close> is the value of \<open>new Date().toISOString()\<close>.\<close>

definition exportToJSON :: "jsstring \<Rightarrow> world \<Rightarrow> world \<times> document" where
  "exportToJSON isoDate w =
     (let (w1, r1) = storage_get w;
          tabs = or_empty (a_tabs r1);
          (w2, r2) = storage_get w1;
          customLabels = or_empty (a_customLabels r2);
          settings = getSettings w2
      in (w2, \<lparr> version = Some (js ''1.0.0''),
                exportDate = Some isoDate,
                data = Some \<lparr> d_tabs = Arr tabs,
                              d_customLabels = Arr customLabels,
                              d_settings = Some settings \<rparr> \<rparr>))"

text \<open>\<open>validateImportData(data)\<close>; the \<open>forEach\<close> over the tabs carries the index.\<close>

fun validate_tabs :: "nat \<Rightarrow> tab list \<Rightarrow> verror list" where
  "validate_tabs index [] = []"
| "validate_tabs index (t # ts) =
     (if \<not> truthy (url t) then [TabMissingUrl index] else [])
     @ (if \<not> truthy (title t) then [TabMissingTitle index] else [])
     @ validate_tabs (Suc index) ts"

definition validateImportData :: "document option \<Rightarrow> bool \<times> verror list" where
  "validateImportData d =
     (case d of
        None \<Rightarrow> (False, [NoDataProvided])
      | Some doc \<Rightarrow>
          (case data doc of
             None \<Rightarrow> (False, [MissingDataProperty])
           | Some dd \<Rightarrow>
               (let errors = (case d_tabs dd of Arr ts \<Rightarrow> validate_tabs 0 ts
                              | _ \<Rightarrow> [InvalidTabsArray]);
                    errors = errors @ (case d_customLabels dd of NotArray \<Rightarrow> [InvalidCustomLabels]
                                       | _ \<Rightarrow> [])
                in (errors = [], errors))))"

text \<open>\<open>data.data.tabs\<close> and \<open>data.data.customLabels || []\<close> of a document.\<close>

definition doc_tabs :: "document option \<Rightarrow> tab list" where
  "doc_tabs d =
     (case d of None \<Rightarrow> []
      | Some doc \<Rightarrow> (case data doc of None \<Rightarrow> []
                    | Some dd \<Rightarrow> (case d_tabs dd of Arr ts \<Rightarrow> ts | _ \<Rightarrow> [])))"

definition doc_customLabels :: "document option \<Rightarrow> label list" where
  "doc_customLabels d =
     (case d of None \<Rightarrow> []
      | Some doc \<Rightarrow> (case data doc of None \<Rightarrow> []
                    | Some dd \<Rightarrow> (case d_customLabels dd of Arr ls \<Rightarrow> ls | _ \<Rightarrow> [])))"

text \<open>
  \<open>importFromJSON(data, mode)\<close>. \<open>uuid k\<close> and \<open>now k\<close> are what \<open>crypto.randomUUID()\<close> and
  \<open>Date.now()\<close> return while the \<open>k\<close>-th new tab is being completed.
\<close>

definition ensure_id :: "(nat \<Rightarrow> jsstring) \<Rightarrow> (nat \<Rightarrow> int) \<Rightarrow> nat \<times> tab \<Rightarrow> tab" where
  "ensure_id uuid now kt =
     (let k = fst kt; tab = snd kt
      in tab\<lparr> tab_id := (if truthy (tab_id tab) then tab_id tab else Some (uuid k)),
              dateAdded := (if truthy_num (dateAdded tab) then dateAdded tab else Some (now k)) \<rparr>)"

text \<open>
  The merge branch: \<open>newTabs\<close> are the imported tabs whose url no existing tab has,
  \<open>tabsToAdd\<close> completes them, \<open>newLabels\<close> are the imported labels whose id no existing
  label has.
\<close>

definition newTabs :: "tab list \<Rightarrow> tab list \<Rightarrow> tab list" where
  "newTabs existingTabs importedTabs =
     (let existingUrls = set (map url existingTabs)
      in filter (\<lambda>t. url t \<notin> existingUrls) importedTabs)"

definition tabsToAdd ::
  "(nat \<Rightarrow> jsstring) \<Rightarrow> (nat \<Rightarrow> int) \<Rightarrow> tab list \<Rightarrow> tab list \<Rightarrow> tab list" where
  "tabsToAdd uuid now existingTabs importedTabs =
     map (ensure_id uuid now) (enumerate 0 (newTabs existingTabs importedTabs))"

definition newLabels :: "label list \<Rightarrow> label list \<Rightarrow> label list" where
  "newLabels existingLabels importedLabels =
     (let existingLabelIds = set (map label_id existingLabels)
      in filter (\<lambda>l. label_id l \<notin> existingLabelIds) importedLabels)"

definition importFromJSON ::
  "(nat \<Rightarrow> jsstring) \<Rightarrow> (nat \<Rightarrow> int) \<Rightarrow> document option \<Rightarrow> jsstring \<Rightarrow> world
     \<Rightarrow> world \<times> (error + import_result)" where
  "importFromJSON uuid now d mode w =
     (let validation = validateImportData d
      in if \<not> fst validation then (w, Inl (InvalidImportData (snd validation)))
         else
           (let importedTabs = doc_tabs d;
                importedLabels = doc_customLabels d
            in if mode = js ''replace''
               then
                 (let w1 = storage_set (tabs_item importedTabs) w;
                      w2 = storage_set (customLabels_item importedLabels) w1
                  in (w2, Inr \<lparr> tabsImported = int (length importedTabs),
                                tabsSkipped = 0,
                                labelsImported = int (length importedLabels) \<rparr>))
               else
                 (let (w1, r1) = storage_get w;
                      existingTabs = or_empty (a_tabs r1);
                      (w2, r2) = storage_get w1;
                      existingLabels = or_empty (a_customLabels r2);
                      toAdd = tabsToAdd uuid now existingTabs importedTabs;
                      w3 = storage_set (tabs_item (existingTabs @ toAdd)) w2;
                      new = newLabels existingLabels importedLabels;
                      w4 = storage_set (customLabels_item (existingLabels @ new)) w3
                  in (w4, Inr \<lparr> tabsImported = int (length toAdd),
                                tabsSkipped = int (length importedTabs) - int (length toAdd),
                                labelsImported = int (length new) \<rparr>))))"

section \<open>search.js\<close>

text \<open>The search functions; the sources hold them in the second half of \<open>lib/import-export.js\<close>.\<close>

text \<open>
  \<open>String.prototype.trim\<close> removes white space and line terminators from both ends; these
  are the code units it removes.
\<close>

definition is_whitespace :: "nat \<Rightarrow> bool" where
  "is_whitespace c =
     (c \<in> {9, 10, 11, 12, 13, 32, 160, 5760, 8232, 8233, 8239, 8287, 12288, 65279}
      \<or> (8192 \<le> c \<and> c \<le> 8202))"

definition trim :: "jsstring \<Rightarrow> jsstring" where
  "trim s = rev (dropWhile is_whitespace (rev (dropWhile is_whitespace s)))"

text \<open>\<open>String.prototype.includes\<close>: the second string occurs in the first as a substring.\<close>

fun starts_with :: "jsstring \<Rightarrow> jsstring \<Rightarrow> bool" where
  "starts_with s [] = True"
| "starts_with [] (q # qs) = False"
| "starts_with (c # cs) (q # qs) = (c = q \<and> starts_with cs qs)"

fun str_includes :: "jsstring \<Rightarrow> jsstring \<Rightarrow> bool" where
  "str_includes [] q = (q = [])"
| "str_includes (c # cs) q = (starts_with (c # cs) q \<or> str_includes cs q)"

text \<open>
  \<open>normalizeSearchText(text)\<close>; the regular expression removes the code units
  U+0300 to U+036F.
\<close>

definition normalizeSearchText :: "host \<Rightarrow> jsstring option \<Rightarrow> jsstring" where
  "normalizeSearchText h text =
     (if \<not> truthy text then []
      else trim (filter (\<lambda>c. \<not> (768 \<le> c \<and> c \<le> 879))
                  (normalizeNFD h (toLowerCase h (or_empty text)))))"

text \<open>
  \<open>Array.prototype.sort(compare)\<close>. The language standard requires the sort to be stable,
  so for a consistent comparator the result is determined: the elements in ascending
  order of the comparator, equal ones in their original order. Insertion from the right,
  placing an element before the first one it does not exceed, computes that result. For
  a comparator that is not consistent the standard fixes only that the result is a
  permutation of the input.
\<close>

fun sort_insert :: "('a \<Rightarrow> 'a \<Rightarrow> int) \<Rightarrow> 'a \<Rightarrow> 'a list \<Rightarrow> 'a list" where
  "sort_insert compare x [] = [x]"
| "sort_insert compare x (y # ys) =
     (if compare x y \<le> 0 then x # y # ys else y # sort_insert compare x ys)"

definition array_sort :: "('a \<Rightarrow> 'a \<Rightarrow> int) \<Rightarrow> 'a list \<Rightarrow> 'a list" where
  "array_sort compare xs = foldr (sort_insert compare) xs []"

text \<open>
  Where the comparator can be inconsistent, the result depends on the algorithm of the
  engine. The extension runs in Chrome, whose engine V8 sorts an array of fewer than 64
  elements in two steps: it takes the longest run at the start of the array that is
  ascending (no element less than the one before it) or strictly descending, reversing
  a descending run, and then inserts each remaining element into the sorted part at the
  position a binary search finds. \<open>engine_sort\<close> is this algorithm. For a consistent
  comparator it is a stable sort, as the standard requires of any engine. On an array of
  64 or more elements V8 merges several such runs instead, which for an inconsistent
  comparator can give another order than \<open>engine_sort\<close>.
\<close>

function binary_search :: "('a \<Rightarrow> 'a \<Rightarrow> int) \<Rightarrow> 'a \<Rightarrow> 'a list \<Rightarrow> nat \<Rightarrow> nat \<Rightarrow> nat" where
  "binary_search compare pivot xs left right =
     (if left < right
      then (if compare pivot (xs ! (left + (right - left) div 2)) < 0
            then binary_search compare pivot xs left (left + (right - left) div 2)
            else binary_search compare pivot xs (left + (right - left) div 2 + 1) right)
      else left)"
  by pat_completeness auto
termination
  by (relation "measure (\<lambda>(compare, pivot, xs, left, right). right - left)") auto

declare binary_search.simps [simp del]

fun binary_insertion :: "('a \<Rightarrow> 'a \<Rightarrow> int) \<Rightarrow> 'a list \<Rightarrow> 'a list \<Rightarrow> 'a list" where
  "binary_insertion compare sortedPart [] = sortedPart"
| "binary_insertion compare sortedPart (pivot # rest) =
     (let left = binary_search compare pivot sortedPart 0 (length sortedPart)
      in binary_insertion compare (take left sortedPart @ pivot # drop left sortedPart) rest)"

text \<open>
  The number of elements that continue a run after the element \<open>previous\<close>.
\<close>

fun run_rest :: "('a \<Rightarrow> 'a \<Rightarrow> int) \<Rightarrow> bool \<Rightarrow> 'a \<Rightarrow> 'a list \<Rightarrow> nat" where
  "run_rest compare isDescending previous [] = 0"
| "run_rest compare isDescending previous (current # rest) =
     (if (if isDescending then compare current previous \<ge> 0 else compare current previous < 0)
      then 0
      else Suc (run_rest compare isDescending current rest))"

definition engine_sort :: "('a \<Rightarrow> 'a \<Rightarrow> int) \<Rightarrow> 'a list \<Rightarrow> 'a list" where
  "engine_sort compare xs =
     (case xs of
        [] \<Rightarrow> []
      | [x] \<Rightarrow> [x]
      | x # y # rest \<Rightarrow>
          (let isDescending = compare y x < 0;
               runLength = 2 + run_rest compare isDescending y rest;
               run = (if isDescending then rev (take runLength xs) else take runLength xs)
           in binary_insertion compare run (drop runLength xs)))"

text \<open>The score that the \<open>map\<close> callback of \<open>searchTabsWithRelevance\<close> computes for one tab.\<close>

definition tab_score :: "host \<Rightarrow> jsstring \<Rightarrow> tab \<Rightarrow> int" where
  "tab_score h normalizedQuery tab =
     (let score = 0;
          score = (if str_includes (normalizeSearchText h (title tab)) normalizedQuery
                   then score + 10 else score);
          score = (if str_includes (normalizeSearchText h (domain tab)) normalizedQuery
                   then score + 8 else score);
          labelMatch = list_ex (\<lambda>label. str_includes (normalizeSearchText h (Some label)) normalizedQuery)
                         (or_empty (labels tab));
          score = (if labelMatch then score + 6 else score);
          score = (if str_includes (normalizeSearchText h (description tab)) normalizedQuery
                   then score + 4 else score);
          score = (if str_includes (normalizeSearchText h (url tab)) normalizedQuery
                   then score + 2 else score)
      in score)"

definition searchTabsWithRelevance :: "host \<Rightarrow> tab list \<Rightarrow> jsstring option \<Rightarrow> tab list" where
  "searchTabsWithRelevance h tabs query =
     (if \<not> truthy query \<or> trim (or_empty query) = [] then tabs
      else
        (let normalizedQuery = normalizeSearchText h query
         in if normalizedQuery = [] then tabs
            else map fst
                   (array_sort (\<lambda>a b. snd b - snd a)
                      (filter (\<lambda>item. snd item > 0)
                         (map (\<lambda>tab. (tab, tab_score h normalizedQuery tab)) tabs)))))"

text \<open>
  The score in the words of the specification: the sum of the weights of the fields that
  match.
\<close>

definition field_matches :: "host \<Rightarrow> jsstring \<Rightarrow> jsstring option \<Rightarrow> bool" where
  "field_matches h q field = str_includes (normalizeSearchText h field) q"

definition spec_score :: "host \<Rightarrow> jsstring \<Rightarrow> tab \<Rightarrow> int" where
  "spec_score h q t =
     (if field_matches h q (title t) then 10 else 0)
     + (if field_matches h q (domain t) then 8 else 0)
     + (if (\<exists>l \<in> set (or_empty (labels t)). field_matches h q (Some l)) then 6 else 0)
     + (if field_matches h q (description t) then 4 else 0)
     + (if field_matches h q (url t) then 2 else 0)"

section \<open>domain-grouper.js: grouping\<close>

text \<open>
  An ordinary JavaScript object with string keys is modelled by its own properties in the
  order of their creation. A lookup finds an own property first and then the members
  that every object inherits from \<open>Object.prototype\<close>; these are functions (or, for
  \<open>__proto__\<close>, the prototype itself): truthy values that have no \<open>push\<close> method.
\<close>

datatype 'v lookup = Own 'v | Inherited | Undefined

definition object_prototype_keys :: "jsstring list" where
  "object_prototype_keys =
     map js [''constructor'', ''__proto__'', ''hasOwnProperty'', ''isPrototypeOf'',
             ''propertyIsEnumerable'', ''toLocaleString'', ''toString'', ''valueOf'',
             ''__defineGetter__'', ''__defineSetter__'', ''__lookupGetter__'',
             ''__lookupSetter__'']"

definition obj_get :: "(jsstring \<times> 'v) list \<Rightarrow> jsstring \<Rightarrow> 'v lookup" where
  "obj_get obj k =
     (case map_of obj k of
        Some v \<Rightarrow> Own v
      | None \<Rightarrow> (if k \<in> set object_prototype_keys then Inherited else Undefined))"

fun obj_put :: "jsstring \<Rightarrow> 'v \<Rightarrow> (jsstring \<times> 'v) list \<Rightarrow> (jsstring \<times> 'v) list" where
  "obj_put k v [] = [(k, v)]"
| "obj_put k v (p # ps) = (if fst p = k then (k, v) # ps else p # obj_put k v ps)"

text \<open>
  \<open>Object.keys\<close> lists the own keys that are array indices (canonical decimal numerals below
  \<open>2^32 - 1\<close>) first, in ascending numeric order, and then the other keys in the order of
  their creation.
\<close>

definition is_digit :: "nat \<Rightarrow> bool" where
  "is_digit c = (48 \<le> c \<and> c \<le> 57)"

definition index_value :: "jsstring \<Rightarrow> nat" where
  "index_value s = foldl (\<lambda>n c. 10 * n + (c - 48)) 0 s"

definition is_array_index :: "jsstring \<Rightarrow> bool" where
  "is_array_index s =
     (s \<noteq> [] \<and> list_all is_digit s \<and> (s = [48] \<or> take 1 s \<noteq> [48]) \<and> index_value s < 4294967295)"

definition key_order :: "jsstring list \<Rightarrow> jsstring list" where
  "key_order ks =
     sort_key index_value (filter is_array_index ks) @ filter (\<lambda>k. \<not> is_array_index k) ks"

definition object_keys :: "(jsstring \<times> 'v) list \<Rightarrow> jsstring list" where
  "object_keys obj = key_order (map fst obj)"

text \<open>
  \<open>groupTabsByDomain(tabs)\<close>. \<open>group_key\<close> is \<open>tab.domain || extractDomain(tab.url)\<close>. One
  round of the first loop: \<open>if (!groups[domain]) groups[domain] = []\<close>, then
  \<open>groups[domain].push(tab)\<close>, which throws a \<open>TypeError\<close> when \<open>groups[domain]\<close> is an
  inherited member.
\<close>

definition group_key :: "host \<Rightarrow> tab \<Rightarrow> jsstring" where
  "group_key h tab =
     (if truthy (domain tab) then or_empty (domain tab)
      else extractDomain h (to_string (url tab)))"

definition group_step ::
  "host \<Rightarrow> (jsstring \<times> tab list) list \<Rightarrow> tab \<Rightarrow> error + (jsstring \<times> tab list) list" where
  "group_step h groups tab =
     (let d = group_key h tab;
          groups1 = (case obj_get groups d of Undefined \<Rightarrow> obj_put d [] groups | _ \<Rightarrow> groups)
      in case obj_get groups1 d of
           Own ts \<Rightarrow> Inr (obj_put d (ts @ [tab]) groups1)
         | _ \<Rightarrow> Inl TypeError)"

fun group_loop ::
  "host \<Rightarrow> tab list \<Rightarrow> (jsstring \<times> tab list) list \<Rightarrow> error + (jsstring \<times> tab list) list" where
  "group_loop h [] groups = Inr groups"
| "group_loop h (tab # tabs) groups =
     (case group_step h groups tab of
        Inl e \<Rightarrow> Inl e
      | Inr groups' \<Rightarrow> group_loop h tabs groups')"

text \<open>
  The comparator \<open>(a, b) => b.dateAdded - a.dateAdded\<close>; with a missing date the difference
  is \<open>NaN\<close>, which \<open>sort\<close> treats as \<open>0\<close>. On a group in which every tab has a date the
  comparator is consistent and the order is newest first, equal dates in input order. On
  a group that holds a tab without a date the comparator is not consistent (such a tab
  compares equal to every tab) and the order is the one the engine's algorithm gives,
  so the groups are sorted with \<open>engine_sort\<close>.
\<close>

definition date_compare :: "tab \<Rightarrow> tab \<Rightarrow> int" where
  "date_compare a b =
     (case dateAdded b of
        None \<Rightarrow> 0
      | Some x \<Rightarrow> (case dateAdded a of None \<Rightarrow> 0 | Some y \<Rightarrow> x - y))"

definition groupTabsByDomain :: "host \<Rightarrow> tab list \<Rightarrow> error + (jsstring \<times> tab list) list" where
  "groupTabsByDomain h tabs =
     (case group_loop h tabs [] of
        Inl e \<Rightarrow> Inl e
      | Inr groups \<Rightarrow> Inr (map (\<lambda>g. (fst g, engine_sort date_compare (snd g))) groups))"

text \<open>
  \<open>getDomainDisplayName(domain)\<close>. The result is \<open>None\<close> when \<open>displayNames[domain]\<close> is an
  inherited member, which the function returns although it is not a string.
\<close>

definition displayNames :: "(jsstring \<times> jsstring) list" where
  "displayNames =
     map (\<lambda>p. (js (fst p), js (snd p)))
       [(''github.com'', ''GitHub''), (''www.github.com'', ''GitHub''),
        (''youtube.com'', ''YouTube''), (''www.youtube.com'', ''YouTube''),
        (''twitter.com'', ''Twitter''), (''www.twitter.com'', ''Twitter''),
        (''x.com'', ''X (Twitter)''), (''www.x.com'', ''X (Twitter)''),
        (''linkedin.com'', ''LinkedIn''), (''www.linkedin.com'', ''LinkedIn''),
        (''reddit.com'', ''Reddit''), (''www.reddit.com'', ''Reddit''),
        (''stackoverflow.com'', ''Stack Overflow''), (''www.stackoverflow.com'', ''Stack Overflow''),
        (''medium.com'', ''Medium''), (''www.medium.com'', ''Medium''),
        (''notion.so'', ''Notion''), (''www.notion.so'', ''Notion''),
        (''figma.com'', ''Figma''), (''www.figma.com'', ''Figma''),
        (''docs.google.com'', ''Google Docs''), (''drive.google.com'', ''Google Drive''),
        (''mail.google.com'', ''Gmail''), (''calendar.google.com'', ''Google Calendar''),
        (''amazon.com'', ''Amazon''), (''www.amazon.com'', ''Amazon''),
        (''netflix.com'', ''Netflix''), (''www.netflix.com'', ''Netflix''),
        (''spotify.com'', ''Spotify''), (''open.spotify.com'', ''Spotify''),
        (''twitch.tv'', ''Twitch''), (''www.twitch.tv'', ''Twitch''),
        (''discord.com'', ''Discord''), (''www.discord.com'', ''Discord''),
        (''slack.com'', ''Slack''), (''app.slack.com'', ''Slack'')]"

definition getDomainDisplayName :: "host \<Rightarrow> jsstring \<Rightarrow> jsstring option" where
  "getDomainDisplayName h d =
     (case obj_get displayNames d of
        Own v \<Rightarrow> Some v
      | Inherited \<Rightarrow> None
      | Undefined \<Rightarrow>
          (let cleanDomain = (case strip_prefix (js ''www.'') d of Some rest \<Rightarrow> rest | None \<Rightarrow> d);
               part0 = takeWhile (\<lambda>c. c \<noteq> 46) cleanDomain
           in if 46 \<in> set cleanDomain
              then Some (toUpperCase h (take 1 part0) @ drop 1 part0)
              else Some cleanDomain))"

text \<open>\<open>getSortedDomainGroups(tabs)\<close>.\<close>

record domain_group =
  g_domain :: jsstring
  g_displayName :: "jsstring option"
  g_tabs :: "tab list"
  g_count :: int

definition group_length :: "(jsstring \<times> tab list) list \<Rightarrow> jsstring \<Rightarrow> int" where
  "group_length groups d = int (length (or_empty (map_of groups d)))"

definition getSortedDomainGroups :: "host \<Rightarrow> tab list \<Rightarrow> error + domain_group list" where
  "getSortedDomainGroups h tabs =
     (case groupTabsByDomain h tabs of
        Inl e \<Rightarrow> Inl e
      | Inr groups \<Rightarrow>
          (let sortedDomains =
                 array_sort (\<lambda>a b. group_length groups b - group_length groups a) (object_keys groups)
           in Inr (map (\<lambda>d. \<lparr> g_domain = d,
                               g_displayName = getDomainDisplayName h d,
                               g_tabs = or_empty (map_of groups d),
                               g_count = group_length groups d \<rparr>) sortedDomains)))"

text \<open>
  The order in which the elements of a list are first encountered: each element once, at
  the place of its first occurrence.
\<close>

fun first_seen :: "'a list \<Rightarrow> 'a list" where
  "first_seen [] = []"
| "first_seen (x # xs) = x # removeAll x (first_seen xs)"

text \<open>
  The partition of a tab list by group key: one group for each key, the keys in the order
  in which they are first encountered, each group holding its tabs in input order.
\<close>

definition grouped :: "host \<Rightarrow> tab list \<Rightarrow> (jsstring \<times> tab list) list" where
  "grouped h tabs =
     map (\<lambda>d. (d, filter (\<lambda>t. group_key h t = d) tabs)) (first_seen (map (group_key h) tabs))"

text \<open>The number of tabs with a given group key.\<close>

definition key_count :: "host \<Rightarrow> tab list \<Rightarrow> jsstring \<Rightarrow> int" where
  "key_count h tabs d = int (length (filter (\<lambda>t. group_key h t = d) tabs))"

section \<open>A small host for closed examples\<close>

text \<open>
  Closed examples need concrete host functions. \<open>example_host\<close> lower-cases and upper-cases
  ASCII letters, leaves strings unchanged under NFD (correct on ASCII), and parses absolute
  \<open>http://\<close> and \<open>https://\<close> URLs with a non-empty host, taking the host up to the first
  \<open>/\<close>, \<open>?\<close>, \<open>#\<close> or \<open>:\<close>; every other string is rejected. It is used only on inputs on which
  it agrees with a browser.
\<close>

definition ascii_lower :: "nat \<Rightarrow> nat" where
  "ascii_lower c = (if 65 \<le> c \<and> c \<le> 90 then c + 32 else c)"

definition ascii_upper :: "nat \<Rightarrow> nat" where
  "ascii_upper c = (if 97 \<le> c \<and> c \<le> 122 then c - 32 else c)"

definition host_part :: "jsstring \<Rightarrow> jsstring option" where
  "host_part rest =
     (let hostname = takeWhile (\<lambda>c. c \<noteq> 47 \<and> c \<noteq> 63 \<and> c \<noteq> 35 \<and> c \<noteq> 58) rest
      in if hostname = [] then None else Some (map ascii_lower hostname))"

definition example_hostname :: "jsstring \<Rightarrow> jsstring option" where
  "example_hostname u =
     (case strip_prefix (js ''https://'') u of
        Some rest \<Rightarrow> host_part rest
      | None \<Rightarrow>
          (case strip_prefix (js ''http://'') u of
             Some rest \<Rightarrow> host_part rest
           | None \<Rightarrow> None))"

text \<open>
  A stand-in for \<open>JSON.stringify\<close>: the urls and titles of the tabs and the names of the
  labels, one after the other. Only the length of the result matters to the library.
\<close>

definition example_stringify :: "area \<Rightarrow> jsstring" where
  "example_stringify items =
     concat (map (\<lambda>t. or_empty (url t) @ or_empty (title t)) (or_empty (a_tabs items)))
     @ concat (map (\<lambda>l. or_empty (name l)) (or_empty (a_customLabels items)))"

definition example_host :: host where
  "example_host =
     \<lparr> toLowerCase = map ascii_lower,
       toUpperCase = map ascii_upper,
       normalizeNFD = (\<lambda>s. s),
       url_hostname = example_hostname,
       json_stringify = example_stringify \<rparr>"

text \<open>Tabs, labels and states for closed examples.\<close>

definition mk_tab :: "string \<Rightarrow> string \<Rightarrow> string \<Rightarrow> string \<Rightarrow> tab" where
  "mk_tab i u d t =
     \<lparr> tab_id = Some (js i), url = Some (js u), domain = Some (js d), title = Some (js t),
       description = Some [], labels = Some [], dateAdded = Some 1, dateModified = None,
       favicon = Some [] \<rparr>"

definition mk_label :: "string \<Rightarrow> string \<Rightarrow> label" where
  "mk_label i n =
     \<lparr> label_id = Some (js i), name = Some (js n), color = Some (js ''#000000''),
       isCustom = Some True \<rparr>"


definition empty_area :: area where
  "empty_area = \<lparr> a_settings = None, a_tabs = None, a_customLabels = None \<rparr>"

definition world_with :: "tab list \<Rightarrow> label list \<Rightarrow> world" where
  "world_with ts ls =
     \<lparr> local = \<lparr> a_settings = None, a_tabs = Some ts, a_customLabels = Some ls \<rparr>,
       sync = empty_area,
       cachedStorageMode = None \<rparr>"




definition mk_document :: "tab list \<Rightarrow> label list \<Rightarrow> document option" where
  "mk_document ts ls =
     Some \<lparr> version = Some (js ''1.0.0''), exportDate = None,
            data = Some \<lparr> d_tabs = Arr ts, d_customLabels = Arr ls, d_settings = None \<rparr> \<rparr>"

definition example_tabs :: "tab list" where
  "example_tabs =
     [mk_tab ''1'' ''https://digital.com/'' ''digital.com'' ''Shop'',
      mk_tab ''2'' ''https://example.org/'' ''example.org'' ''Example'',
      mk_tab ''3'' ''https://github.com/x'' ''github.com'' ''GitHub'',
      mk_tab ''4'' ''https://digital.com/2'' ''digital.com'' ''Store'']"

definition example_uuid :: "nat \<Rightarrow> jsstring" where
  "example_uuid k = js ''generated-id''"

definition example_now :: "nat \<Rightarrow> int" where
  "example_now k = 5"

section \<open>Properties of extractDomain\<close>

text \<open>
  C7 (as the code has it). \<open>extractDomain\<close> is a function of the host's parser and the string.
  On a string the parser rejects it returns the literal \<open>other\<close>; on a string the parser
  accepts it returns the hostname. A second application therefore returns the hostname of
  the first result when that result parses, and \<open>other\<close> when it does not: the second
  application changes nothing on a rejected string (provided \<open>other\<close> itself is rejected, as
  it is by a browser), and on an accepted string only when the hostname is again a URL
  whose hostname is itself.
\<close>

theorem extractDomain_fallback_and_twice:
  "(url_hostname h u = None \<longrightarrow> extractDomain h u = js ''other'')
   \<and> (\<forall>d. url_hostname h u = Some d \<longrightarrow> extractDomain h u = d)
   \<and> (url_hostname h u = None \<and> url_hostname h (js ''other'') = None \<longrightarrow>
        extractDomain h (extractDomain h u) = extractDomain h u)
   \<and> (\<forall>d. url_hostname h u = Some d \<and> url_hostname h d = None \<longrightarrow>
        extractDomain h (extractDomain h u) = js ''other'')"
  by (simp add: extractDomain_def)

theorem extractDomain_fallback_and_twice_witness:
  "url_hostname example_host (js ''not a url'') = None
   \<and> url_hostname example_host (js ''other'') = None
   \<and> extractDomain example_host (js ''not a url'') = js ''other''
   \<and> extractDomain example_host (extractDomain example_host (js ''not a url'')) =
       extractDomain example_host (js ''not a url'')
   \<and> url_hostname example_host (js ''https://github.com/x'') = Some (js ''github.com'')
   \<and> url_hostname example_host (js ''github.com'') = None
   \<and> extractDomain example_host (js ''https://github.com/x'') = js ''github.com''
   \<and> extractDomain example_host (extractDomain example_host (js ''https://github.com/x'')) =
       js ''other''"
proof -
  have a: "url_hostname example_host (js ''not a url'') = None"
    by (simp add: example_host_def example_hostname_def js_def)
  have b: "url_hostname example_host (js ''other'') = None"
    by (simp add: example_host_def example_hostname_def js_def)
  have c: "url_hostname example_host (js ''https://github.com/x'') = Some (js ''github.com'')"
    by (simp add: example_host_def example_hostname_def host_part_def js_def ascii_lower_def)
  have d: "url_hostname example_host (js ''github.com'') = None"
    by (simp add: example_host_def example_hostname_def js_def)
  note t1 = extractDomain_fallback_and_twice [of example_host "js ''not a url''"]
  note t2 = extractDomain_fallback_and_twice [of example_host "js ''https://github.com/x''"]
  have e: "extractDomain example_host (js ''not a url'') = js ''other''"
    using t1 a by blast
  have f: "extractDomain example_host (extractDomain example_host (js ''not a url'')) =
       extractDomain example_host (js ''not a url'')"
    using t1 a b by blast
  have g: "extractDomain example_host (js ''https://github.com/x'') = js ''github.com''"
    using t2 c by blast
  have i: "extractDomain example_host (extractDomain example_host (js ''https://github.com/x'')) =
       js ''other''"
    using t2 c d by blast
  show ?thesis
    using a b c d e f g i by blast
qed

text \<open>
  C7 (as stated) fails: for a well-formed URL the first result is a bare hostname, which is
  not an absolute URL, so the second application returns \<open>other\<close>.
\<close>

theorem extractDomain_not_idempotent:
  "extractDomain example_host (extractDomain example_host (js ''https://github.com/x''))
     \<noteq> extractDomain example_host (js ''https://github.com/x'')"
  by (simp add: extractDomain_def example_host_def example_hostname_def host_part_def js_def
      ascii_lower_def)

section \<open>Helper lemmas\<close>



lemma getStorageArea_local [simp]: "local (fst (getStorageArea w)) = local w"
  by (simp add: getStorageArea_def Let_def)

lemma getStorageArea_sync [simp]: "sync (fst (getStorageArea w)) = sync w"
  by (simp add: getStorageArea_def Let_def)

lemma getStorageArea_again [simp]:
  "getStorageArea (fst (getStorageArea w)) = getStorageArea w"
  by (simp add: getStorageArea_def Let_def)

lemma getStorageArea_area_update [simp]:
  "getStorageArea (area_update a f (fst (getStorageArea w))) =
     (area_update a f (fst (getStorageArea w)), snd (getStorageArea w))"
  by (cases a) (simp_all add: getStorageArea_def Let_def area_update_def)

lemma area_of_area_update_same [simp]: "area_of a (area_update a f w) = f (area_of a w)"
  by (cases a) (simp_all add: area_of_def area_update_def)

lemma area_of_area_update_other: "a \<noteq> b \<Longrightarrow> area_of a (area_update b f w) = area_of a w"
  by (cases a; cases b) (simp_all add: area_of_def area_update_def)

lemma area_of_getStorageArea [simp]: "area_of a (fst (getStorageArea w)) = area_of a w"
  by (cases a) (simp_all add: area_of_def)

lemma getAllTabs_storage_set_tabs [simp]:
  "snd (getAllTabs (storage_set (tabs_item ts) (fst (storage_get w)))) = ts"
  by (simp add: getAllTabs_def storage_get_def storage_set_def split_beta Let_def
      area_set_def tabs_item_def or_empty_def)

section \<open>updateTab\<close>


lemma example_getAllTabs [simp]: "snd (getAllTabs (world_with ts ls)) = ts"
  by (simp add: getAllTabs_def storage_get_def getStorageArea_def world_with_def Let_def
      area_of_def or_empty_def js_def)





lemma js_local_neq_sync [simp]: "js ''local'' \<noteq> js ''sync''"
  by (simp add: js_def)

section \<open>migrateStorage\<close>




section \<open>Import and export\<close>

lemma storage_get_conv:
  "storage_get w = (fst (getStorageArea w), area_of (snd (getStorageArea w)) w)"
  by (simp add: storage_get_def split_beta)

lemma storage_set_conv:
  "storage_set items w =
     area_update (snd (getStorageArea w)) (area_set items) (fst (getStorageArea w))"
  by (simp add: storage_set_def split_beta)

lemma area_update_twice [simp]:
  "area_update a g (area_update a f w) = area_update a (\<lambda>x. g (f x)) w"
  by (cases a) (simp_all add: area_update_def)

lemma getStorageArea_area_update_snd [simp]:
  "snd (getStorageArea (area_update a f (fst (getStorageArea w)))) = snd (getStorageArea w)"
  by simp

lemma getStorageArea_area_update_fst [simp]:
  "fst (getStorageArea (area_update a f (fst (getStorageArea w)))) =
     area_update a f (fst (getStorageArea w))"
  by simp

lemma a_settings_local_area_update:
  "(\<And>x. a_settings (f x) = a_settings x) \<Longrightarrow>
     a_settings (local (area_update a f w)) = a_settings (local w)"
  by (cases a) (simp_all add: area_update_def)

lemma a_settings_sync_area_update:
  "(\<And>x. a_settings (f x) = a_settings x) \<Longrightarrow>
     a_settings (sync (area_update a f w)) = a_settings (sync w)"
  by (cases a) (simp_all add: area_update_def)

lemma getSettings_cong: "a_settings (local w') = a_settings (local w) \<Longrightarrow> getSettings w' = getSettings w"
  by (simp add: getSettings_def)

text \<open>What a successful import leaves behind.\<close>

lemma importFromJSON_invalid:
  "\<not> fst (validateImportData d) \<Longrightarrow>
     importFromJSON uuid now d mode w = (w, Inl (InvalidImportData (snd (validateImportData d))))"
  by (simp add: importFromJSON_def)

lemma importFromJSON_replace:
  "fst (validateImportData d) \<Longrightarrow>
     importFromJSON uuid now d (js ''replace'') w =
       (area_update (snd (getStorageArea w))
          (\<lambda>x. \<lparr>a_settings = a_settings x, a_tabs = Some (doc_tabs d),
                 a_customLabels = Some (doc_customLabels d)\<rparr>)
          (fst (getStorageArea w)),
        Inr \<lparr> tabsImported = int (length (doc_tabs d)), tabsSkipped = 0,
              labelsImported = int (length (doc_customLabels d)) \<rparr>)"
  by (simp add: importFromJSON_def storage_set_conv Let_def area_set_def tabs_item_def
      customLabels_item_def)

lemma importFromJSON_merge:
  "fst (validateImportData d) \<Longrightarrow> mode \<noteq> js ''replace'' \<Longrightarrow>
     importFromJSON uuid now d mode w =
       (area_update (snd (getStorageArea w))
          (\<lambda>x. \<lparr>a_settings = a_settings x,
                 a_tabs = Some (or_empty (a_tabs (area_of (snd (getStorageArea w)) w))
                   @ tabsToAdd uuid now (or_empty (a_tabs (area_of (snd (getStorageArea w)) w))) (doc_tabs d)),
                 a_customLabels = Some (or_empty (a_customLabels (area_of (snd (getStorageArea w)) w))
                   @ newLabels (or_empty (a_customLabels (area_of (snd (getStorageArea w)) w))) (doc_customLabels d))\<rparr>)
          (fst (getStorageArea w)),
        Inr \<lparr> tabsImported = int (length (tabsToAdd uuid now (or_empty (a_tabs (area_of (snd (getStorageArea w)) w))) (doc_tabs d))),
              tabsSkipped = int (length (doc_tabs d))
                 - int (length (tabsToAdd uuid now (or_empty (a_tabs (area_of (snd (getStorageArea w)) w))) (doc_tabs d))),
              labelsImported = int (length (newLabels (or_empty (a_customLabels (area_of (snd (getStorageArea w)) w))) (doc_customLabels d))) \<rparr>)"
  by (simp add: importFromJSON_def storage_set_conv storage_get_conv Let_def area_set_def tabs_item_def
      customLabels_item_def)

lemma url_ensure_id [simp]: "url (ensure_id uuid now kt) = url (snd kt)"
  by (simp add: ensure_id_def Let_def)

lemma map_url_tabsToAdd: "map url (tabsToAdd uuid now ex imp) = map url (newTabs ex imp)"
proof -
  have "map url (tabsToAdd uuid now ex imp) = map (url \<circ> snd) (enumerate 0 (newTabs ex imp))"
    by (simp add: tabsToAdd_def comp_def)
  also have "\<dots> = map url (map snd (enumerate 0 (newTabs ex imp)))"
    by (simp only: map_map)
  also have "\<dots> = map url (newTabs ex imp)"
    by (simp only: map_snd_enumerate)
  finally show ?thesis .
qed

lemma length_tabsToAdd: "length (tabsToAdd uuid now ex imp) = length (newTabs ex imp)"
  by (simp add: tabsToAdd_def)

lemma newTabs_after_merge: "newTabs (ex @ tabsToAdd uuid now ex imp) imp = []"
proof -
  have "url t \<in> set (map url ex) \<union> set (map url (newTabs ex imp))" if "t \<in> set imp" for t
    using that by (auto simp: newTabs_def)
  then show ?thesis
    by (auto simp: newTabs_def [of "ex @ _"] map_url_tabsToAdd filter_empty_conv
        simp del: set_map)
qed

lemma tabsToAdd_after_merge: "tabsToAdd uuid' now' (ex @ tabsToAdd uuid now ex imp) imp = []"
  by (simp add: tabsToAdd_def [of uuid' now'] newTabs_after_merge)

lemma newLabels_after_merge: "newLabels (ex @ newLabels ex imp) imp = []"
  by (auto simp: newLabels_def filter_empty_conv)

lemma length_newTabs_le: "length (newTabs ex imp) \<le> length imp"
  by (simp add: newTabs_def)

text \<open>
  C10. An import, in either mode and whether or not the document is valid, leaves the
  \<open>settings\<close> key of both storage areas as it was, so \<open>getSettings\<close> returns what it returned
  before; and the outcome of an import does not depend on the \<open>settings\<close> the document
  carries.
\<close>

theorem importFromJSON_settings_unchanged:
  "a_settings (local (fst (importFromJSON uuid now d mode w))) = a_settings (local w)
   \<and> a_settings (sync (fst (importFromJSON uuid now d mode w))) = a_settings (sync w)
   \<and> getSettings (fst (importFromJSON uuid now d mode w)) = getSettings w
   \<and> importFromJSON uuid now (Some (doc\<lparr>data := Some (dd\<lparr>d_settings := s\<rparr>)\<rparr>)) mode w
       = importFromJSON uuid now (Some (doc\<lparr>data := Some dd\<rparr>)) mode w"
proof -
  let ?w' = "fst (importFromJSON uuid now d mode w)"
  have l: "a_settings (local ?w') = a_settings (local w)"
   and s: "a_settings (sync ?w') = a_settings (sync w)"
  proof -
    consider "\<not> fst (validateImportData d)"
      | "fst (validateImportData d)" "mode = js ''replace''"
      | "fst (validateImportData d)" "mode \<noteq> js ''replace''"
      by blast
    then have "a_settings (local ?w') = a_settings (local w) \<and> a_settings (sync ?w') = a_settings (sync w)"
    proof cases
      case 1
      then show ?thesis by (simp add: importFromJSON_invalid)
    next
      case 2
      then show ?thesis
        by (simp add: importFromJSON_replace a_settings_local_area_update a_settings_sync_area_update)
    next
      case 3
      then show ?thesis
        by (simp add: importFromJSON_merge a_settings_local_area_update a_settings_sync_area_update)
    qed
    then show "a_settings (local ?w') = a_settings (local w)" "a_settings (sync ?w') = a_settings (sync w)"
      by blast+
  qed
  have g: "getSettings ?w' = getSettings w"
    using l by (rule getSettings_cong)
  have v: "validateImportData (Some (doc\<lparr>data := Some (dd\<lparr>d_settings := s\<rparr>)\<rparr>))
         = validateImportData (Some (doc\<lparr>data := Some dd\<rparr>))"
    by (simp add: validateImportData_def)
  have dt: "doc_tabs (Some (doc\<lparr>data := Some (dd\<lparr>d_settings := s\<rparr>)\<rparr>))
         = doc_tabs (Some (doc\<lparr>data := Some dd\<rparr>))"
    by (simp add: doc_tabs_def)
  have dl: "doc_customLabels (Some (doc\<lparr>data := Some (dd\<lparr>d_settings := s\<rparr>)\<rparr>))
         = doc_customLabels (Some (doc\<lparr>data := Some dd\<rparr>))"
    by (simp add: doc_customLabels_def)
  have i: "importFromJSON uuid now (Some (doc\<lparr>data := Some (dd\<lparr>d_settings := s\<rparr>)\<rparr>)) mode w
       = importFromJSON uuid now (Some (doc\<lparr>data := Some dd\<rparr>)) mode w"
    by (simp only: importFromJSON_def v dt dl)
  from l s g i show ?thesis by blast
qed

text \<open>
  C4 (as the code has it). After one merge import of a valid document, a second merge
  import of the same document succeeds, imports no tab and no label, leaves the state as
  it is, and reports every tab of the document as skipped: its \<open>tabsSkipped\<close> is the number
  of tabs of the document, which is the sum of the first run's \<open>tabsImported\<close> and
  \<open>tabsSkipped\<close>.
\<close>

theorem merge_twice:
  "fst (validateImportData d) \<Longrightarrow> mode \<noteq> js ''replace'' \<Longrightarrow>
     (\<exists>r1 r2. snd (importFromJSON uuid now d mode w) = Inr r1
        \<and> snd (importFromJSON uuid' now' d mode (fst (importFromJSON uuid now d mode w))) = Inr r2
        \<and> tabsImported r2 = 0
        \<and> labelsImported r2 = 0
        \<and> tabsSkipped r2 = int (length (doc_tabs d))
        \<and> tabsSkipped r2 = tabsImported r1 + tabsSkipped r1
        \<and> 0 \<le> tabsSkipped r1
        \<and> fst (importFromJSON uuid' now' d mode (fst (importFromJSON uuid now d mode w)))
            = fst (importFromJSON uuid now d mode w))"
proof -
  assume v: "fst (validateImportData d)" and m: "mode \<noteq> js ''replace''"
  let ?a = "snd (getStorageArea w)"
  let ?ex = "or_empty (a_tabs (area_of ?a w))"
  let ?exl = "or_empty (a_customLabels (area_of ?a w))"
  let ?add = "tabsToAdd uuid now ?ex (doc_tabs d)"
  let ?new = "newLabels ?exl (doc_customLabels d)"
  let ?w1 = "fst (importFromJSON uuid now d mode w)"
  note first = importFromJSON_merge [OF v m, of uuid now w]
  have w1: "?w1 = area_update ?a
          (\<lambda>x. \<lparr>a_settings = a_settings x, a_tabs = Some (?ex @ ?add),
                 a_customLabels = Some (?exl @ ?new)\<rparr>) (fst (getStorageArea w))"
    by (simp add: first)
  have a1: "snd (getStorageArea ?w1) = ?a"
    unfolding w1 by simp
  have c1: "fst (getStorageArea ?w1) = ?w1"
    unfolding w1 by simp
  have ar1: "area_of ?a ?w1 = \<lparr>a_settings = a_settings (area_of ?a w), a_tabs = Some (?ex @ ?add),
                 a_customLabels = Some (?exl @ ?new)\<rparr>"
    unfolding w1 by simp
  have ex1: "or_empty (a_tabs (area_of ?a ?w1)) = ?ex @ ?add"
    and exl1: "or_empty (a_customLabels (area_of ?a ?w1)) = ?exl @ ?new"
    unfolding ar1 by (simp_all add: or_empty_def)
  note second = importFromJSON_merge [OF v m, of uuid' now' ?w1]
  have same: "area_update ?a
          (\<lambda>x. \<lparr>a_settings = a_settings x, a_tabs = Some (?ex @ ?add),
                 a_customLabels = Some (?exl @ ?new)\<rparr>) ?w1 = ?w1"
    unfolding w1 by simp
  have s2: "importFromJSON uuid' now' d mode ?w1 =
      (?w1, Inr \<lparr> tabsImported = 0, tabsSkipped = int (length (doc_tabs d)), labelsImported = 0 \<rparr>)"
    unfolding second a1 c1 ex1 exl1
    by (simp add: tabsToAdd_after_merge newLabels_after_merge same)
  have le: "length ?add \<le> length (doc_tabs d)"
    by (simp add: length_tabsToAdd length_newTabs_le)
  have r1: "snd (importFromJSON uuid now d mode w) = Inr \<lparr> tabsImported = int (length ?add),
              tabsSkipped = int (length (doc_tabs d)) - int (length ?add),
              labelsImported = int (length ?new) \<rparr>"
    by (simp add: first)
  show ?thesis
    apply (rule exI [of _ "\<lparr> tabsImported = int (length ?add),
              tabsSkipped = int (length (doc_tabs d)) - int (length ?add),
              labelsImported = int (length ?new) \<rparr>"])
    apply (rule exI [of _ "\<lparr> tabsImported = 0, tabsSkipped = int (length (doc_tabs d)), labelsImported = 0 \<rparr>"])
    using le by (simp add: s2 r1)
qed

theorem merge_twice_witness:
  "fst (validateImportData
      (mk_document [mk_tab ''x'' ''https://a.com/'' ''a.com'' ''A'',
                    mk_tab ''y'' ''https://b.com/'' ''b.com'' ''B''] [mk_label ''l'' ''L'']))
   \<and> js ''merge'' \<noteq> js ''replace''
   \<and> map_sum id tabsImported
     (snd (importFromJSON example_uuid example_now
        (mk_document [mk_tab ''x'' ''https://a.com/'' ''a.com'' ''A'',
                      mk_tab ''y'' ''https://b.com/'' ''b.com'' ''B''] [mk_label ''l'' ''L''])
        (js ''merge'')
        (fst (importFromJSON example_uuid example_now
           (mk_document [mk_tab ''x'' ''https://a.com/'' ''a.com'' ''A'',
                         mk_tab ''y'' ''https://b.com/'' ''b.com'' ''B''] [mk_label ''l'' ''L''])
           (js ''merge'')
           (world_with [mk_tab ''a'' ''https://a.com/'' ''a.com'' ''A''] []))))) = Inr 0
   \<and> map_sum id labelsImported
     (snd (importFromJSON example_uuid example_now
        (mk_document [mk_tab ''x'' ''https://a.com/'' ''a.com'' ''A'',
                      mk_tab ''y'' ''https://b.com/'' ''b.com'' ''B''] [mk_label ''l'' ''L''])
        (js ''merge'')
        (fst (importFromJSON example_uuid example_now
           (mk_document [mk_tab ''x'' ''https://a.com/'' ''a.com'' ''A'',
                         mk_tab ''y'' ''https://b.com/'' ''b.com'' ''B''] [mk_label ''l'' ''L''])
           (js ''merge'')
           (world_with [mk_tab ''a'' ''https://a.com/'' ''a.com'' ''A''] []))))) = Inr 0
   \<and> map_sum id tabsSkipped
     (snd (importFromJSON example_uuid example_now
        (mk_document [mk_tab ''x'' ''https://a.com/'' ''a.com'' ''A'',
                      mk_tab ''y'' ''https://b.com/'' ''b.com'' ''B''] [mk_label ''l'' ''L''])
        (js ''merge'')
        (fst (importFromJSON example_uuid example_now
           (mk_document [mk_tab ''x'' ''https://a.com/'' ''a.com'' ''A'',
                         mk_tab ''y'' ''https://b.com/'' ''b.com'' ''B''] [mk_label ''l'' ''L''])
           (js ''merge'')
           (world_with [mk_tab ''a'' ''https://a.com/'' ''a.com'' ''A''] []))))) = Inr 2"
  (is "?V \<and> ?M \<and> ?A \<and> ?B \<and> ?C")
proof -
  let ?d = "mk_document [mk_tab ''x'' ''https://a.com/'' ''a.com'' ''A'',
                      mk_tab ''y'' ''https://b.com/'' ''b.com'' ''B''] [mk_label ''l'' ''L'']"
  let ?w = "world_with [mk_tab ''a'' ''https://a.com/'' ''a.com'' ''A''] []"
  have v: ?V by code_simp
  have m: ?M by (simp add: js_def)
  have len: "int (length (doc_tabs ?d)) = 2"
    by (simp add: doc_tabs_def mk_document_def)
  from merge_twice [OF v m, of example_uuid example_now ?w example_uuid example_now]
  obtain r1 r2 where
    r2: "snd (importFromJSON example_uuid example_now ?d (js ''merge'')
            (fst (importFromJSON example_uuid example_now ?d (js ''merge'') ?w))) = Inr r2"
    and z: "tabsImported r2 = 0" "labelsImported r2 = 0"
    and sk: "tabsSkipped r2 = int (length (doc_tabs ?d))"
    by blast
  have a: ?A and b: ?B and c: ?C
    unfolding r2 using z sk len by simp_all
  from v m a b c show ?thesis by blast
qed

text \<open>
  C4 (as stated) fails in its last part: the second run's \<open>tabsSkipped\<close> is not the first
  run's \<open>tabsImported\<close> when the first run skipped a tab. With one stored tab for
  \<open>https://a.com/\<close> and a document of two tabs, for \<open>https://a.com/\<close> and \<open>https://b.com/\<close>,
  the first run imports one tab and the second run skips two.
\<close>

theorem merge_twice_skipped_differs:
  "map_sum id tabsImported
     (snd (importFromJSON example_uuid example_now
        (mk_document [mk_tab ''x'' ''https://a.com/'' ''a.com'' ''A'',
                      mk_tab ''y'' ''https://b.com/'' ''b.com'' ''B''] [])
        (js ''merge'')
        (world_with [mk_tab ''a'' ''https://a.com/'' ''a.com'' ''A''] []))) = Inr 1
   \<and> map_sum id tabsSkipped
     (snd (importFromJSON example_uuid example_now
        (mk_document [mk_tab ''x'' ''https://a.com/'' ''a.com'' ''A'',
                      mk_tab ''y'' ''https://b.com/'' ''b.com'' ''B''] [])
        (js ''merge'')
        (fst (importFromJSON example_uuid example_now
           (mk_document [mk_tab ''x'' ''https://a.com/'' ''a.com'' ''A'',
                         mk_tab ''y'' ''https://b.com/'' ''b.com'' ''B''] [])
           (js ''merge'')
           (world_with [mk_tab ''a'' ''https://a.com/'' ''a.com'' ''A''] []))))) = Inr 2"
  by code_simp

text \<open>
  C8. The merge branch compares the url of an imported tab with the urls of the tabs
  stored before the import only. Two tabs of one document that share a new url are both
  added: from an empty collection, a valid document with two tabs for \<open>https://a.com/\<close>
  leaves two stored tabs with that url.
\<close>

theorem merge_duplicate_urls:
  "fst (validateImportData
      (mk_document [mk_tab ''x'' ''https://a.com/'' ''a.com'' ''A'',
                    mk_tab ''y'' ''https://a.com/'' ''a.com'' ''A again''] []))
   \<and> distinct (map url (snd (getAllTabs (world_with [] []))))
   \<and> map url (snd (getAllTabs (fst (importFromJSON example_uuid example_now
        (mk_document [mk_tab ''x'' ''https://a.com/'' ''a.com'' ''A'',
                      mk_tab ''y'' ''https://a.com/'' ''a.com'' ''A again''] [])
        (js ''merge'')
        (world_with [] [])))))
      = [Some (js ''https://a.com/''), Some (js ''https://a.com/'')]"
  by code_simp

lemma or_empty_simps [simp]: "or_empty (Some xs) = xs" "or_empty None = []"
  by (simp_all add: or_empty_def)

lemma getAllTabs_conv:
  "snd (getAllTabs w) = or_empty (a_tabs (area_of (snd (getStorageArea w)) w))"
  by (simp add: getAllTabs_def storage_get_conv)

lemma exportToJSON_conv:
  "exportToJSON date w =
     (fst (getStorageArea w),
      \<lparr> version = Some (js ''1.0.0''), exportDate = Some date,
        data = Some \<lparr> d_tabs = Arr (snd (getAllTabs w)),
                      d_customLabels = Arr (or_empty (a_customLabels (snd (storage_get w)))),
                      d_settings = Some (getSettings w) \<rparr> \<rparr>)"
  by (simp add: exportToJSON_def getAllTabs_conv storage_get_conv Let_def
      getSettings_cong [of "fst (getStorageArea w)" w])

text \<open>
  C3. Export followed at once by a replace import of the exported document. Afterwards
  the stored tabs and the stored custom labels (as \<open>storage.get\<close> with its default \<open>[]\<close>
  reads them) and the settings are what they were before the export. The import
  succeeds, rewriting the two collections with their own content, exactly when every
  stored tab has a non-empty url and a non-empty title; otherwise validation rejects the
  exported document and both storage areas are left as they were.
\<close>

theorem export_then_import_replace:
  "(let w1 = fst (exportToJSON date w);
        doc = snd (exportToJSON date w);
        w2 = fst (importFromJSON uuid now (Some doc) (js ''replace'') w1);
        r = snd (importFromJSON uuid now (Some doc) (js ''replace'') w1)
    in snd (getAllTabs w2) = snd (getAllTabs w)
       \<and> or_empty (a_customLabels (snd (storage_get w2)))
           = or_empty (a_customLabels (snd (storage_get w)))
       \<and> getSettings w2 = getSettings w
       \<and> a_settings (local w2) = a_settings (local w)
       \<and> a_settings (sync w2) = a_settings (sync w)
       \<and> (validate_tabs 0 (snd (getAllTabs w)) = []
             \<and> r = Inr \<lparr> tabsImported = int (length (snd (getAllTabs w))),
                         tabsSkipped = 0,
                         labelsImported =
                           int (length (or_empty (a_customLabels (snd (storage_get w))))) \<rparr>
           \<or> validate_tabs 0 (snd (getAllTabs w)) \<noteq> []
             \<and> r = Inl (InvalidImportData (validate_tabs 0 (snd (getAllTabs w))))
             \<and> local w2 = local w \<and> sync w2 = sync w))"
proof -
  let ?c = "fst (getStorageArea w)"
  let ?a = "snd (getStorageArea w)"
  let ?tabs = "snd (getAllTabs w)"
  let ?labels = "or_empty (a_customLabels (snd (storage_get w)))"
  let ?doc = "\<lparr> version = Some (js ''1.0.0''), exportDate = Some date,
        data = Some \<lparr> d_tabs = Arr ?tabs, d_customLabels = Arr ?labels,
                      d_settings = Some (getSettings w) \<rparr> \<rparr>"
  let ?imp = "importFromJSON uuid now (Some ?doc) (js ''replace'') ?c"
  have val: "validateImportData (Some ?doc) = (validate_tabs 0 ?tabs = [], validate_tabs 0 ?tabs)"
    by (simp add: validateImportData_def Let_def)
  have dt: "doc_tabs (Some ?doc) = ?tabs" by (simp add: doc_tabs_def)
  have dl: "doc_customLabels (Some ?doc) = ?labels" by (simp add: doc_customLabels_def)
  have goal: "snd (getAllTabs (fst ?imp)) = ?tabs
       \<and> or_empty (a_customLabels (snd (storage_get (fst ?imp)))) = ?labels
       \<and> getSettings (fst ?imp) = getSettings w
       \<and> a_settings (local (fst ?imp)) = a_settings (local w)
       \<and> a_settings (sync (fst ?imp)) = a_settings (sync w)
       \<and> (validate_tabs 0 ?tabs = []
             \<and> snd ?imp = Inr \<lparr> tabsImported = int (length ?tabs), tabsSkipped = 0,
                         labelsImported = int (length ?labels) \<rparr>
           \<or> validate_tabs 0 ?tabs \<noteq> []
             \<and> snd ?imp = Inl (InvalidImportData (validate_tabs 0 ?tabs))
             \<and> local (fst ?imp) = local w \<and> sync (fst ?imp) = sync w)"
  proof (cases "validate_tabs 0 ?tabs = []")
    case True
    then have v: "fst (validateImportData (Some ?doc))" by (simp add: val)
    note r = importFromJSON_replace [OF v, of uuid now ?c, unfolded dt dl]
    have s1: "a_settings (local (fst ?imp)) = a_settings (local w)"
      by (simp add: r a_settings_local_area_update)
    have s2: "a_settings (sync (fst ?imp)) = a_settings (sync w)"
      by (simp add: r a_settings_sync_area_update)
    have t: "snd (getAllTabs (fst ?imp)) = ?tabs"
      unfolding r by (simp add: getAllTabs_conv [of "area_update _ _ _"])
    have l: "or_empty (a_customLabels (snd (storage_get (fst ?imp)))) = ?labels"
      unfolding r by (simp add: storage_get_conv [of "area_update _ _ _"])
    from True s1 s2 t l getSettings_cong [OF s1] show ?thesis
      by (simp add: r)
  next
    case False
    then have v: "\<not> fst (validateImportData (Some ?doc))" by (simp add: val)
    note r = importFromJSON_invalid [OF v, of uuid now "js ''replace''" ?c]
    have t: "snd (getAllTabs ?c) = ?tabs"
      by (simp add: getAllTabs_conv)
    have l: "or_empty (a_customLabels (snd (storage_get ?c))) = ?labels"
      by (simp add: storage_get_conv)
    from False t l getSettings_cong [of ?c w] show ?thesis
      by (simp add: r val)
  qed
  show ?thesis
    unfolding exportToJSON_conv Let_def fst_conv snd_conv using goal .
qed

section \<open>searchTabsWithRelevance\<close>

lemma sort_insert_by_key:
  "sort_insert (\<lambda>a b. k b - k a) x ys = insort_key (\<lambda>x. - k x) x ys"
  by (induction ys) auto

lemma array_sort_by_key:
  "array_sort (\<lambda>a b. k b - k a) xs = sort_key (\<lambda>x. - (k x :: int)) xs"
  by (induction xs) (simp_all add: array_sort_def sort_key_def sort_insert_by_key)

lemma insort_key_map:
  "insort_key f (g x) (map g ys) = map g (insort_key (\<lambda>y. f (g y)) x ys)"
  by (induction ys) auto

lemma sort_key_map:
  "sort_key f (map g xs) = map g (sort_key (\<lambda>y. f (g y)) xs)"
  by (induction xs) (simp_all add: insort_key_map)

lemma tab_score_eq_spec_score: "tab_score h q t = spec_score h q t"
  by (simp add: tab_score_def spec_score_def field_matches_def Let_def list_ex_iff)

lemma searchTabsWithRelevance_ranked:
  assumes "truthy query" "trim (or_empty query) \<noteq> []" "normalizeSearchText h query \<noteq> []"
  shows "searchTabsWithRelevance h tabs query =
     sort_key (\<lambda>t. - spec_score h (normalizeSearchText h query) t)
       (filter (\<lambda>t. 0 < spec_score h (normalizeSearchText h query) t) tabs)"
proof -
  let ?q = "normalizeSearchText h query"
  have "searchTabsWithRelevance h tabs query =
      map fst (array_sort (\<lambda>a b. snd b - snd a)
         (filter (\<lambda>item. snd item > 0) (map (\<lambda>tab. (tab, spec_score h ?q tab)) tabs)))"
    using assms by (simp add: searchTabsWithRelevance_def Let_def tab_score_eq_spec_score)
  also have "\<dots> = map fst (sort_key (\<lambda>item. - snd item)
         (map (\<lambda>tab. (tab, spec_score h ?q tab)) (filter (\<lambda>t. 0 < spec_score h ?q t) tabs)))"
    by (simp add: array_sort_by_key filter_map comp_def)
  also have "\<dots> = sort_key (\<lambda>t. - spec_score h ?q t) (filter (\<lambda>t. 0 < spec_score h ?q t) tabs)"
    by (simp add: sort_key_map comp_def)
  finally show ?thesis .
qed

text \<open>
  C1. The score computed by the code is the sum of the weights of the matching fields:
  10 for the title, 8 for the domain, 6 for any label, 4 for the description, 2 for the
  url, each compared with the normalized query on its own. For a query that is absent,
  empty, white space only, or empty after normalization, the input list is returned as
  it is. For any other query the result holds exactly the tabs with a positive score
  (as a multiset), is in descending order of score, and for every score lists the tabs
  of that score in the order they have in the input. (With a browser's \<open>toLowerCase\<close> and
  \<open>normalize\<close>, a query whose normalization is not empty is never white space only, so
  the two cases are the two cases of the claim.)
\<close>

theorem searchTabsWithRelevance_spec:
  "tab_score h nq t = spec_score h nq t
   \<and> (\<not> truthy query \<or> trim (or_empty query) = [] \<or> normalizeSearchText h query = [] \<longrightarrow>
      searchTabsWithRelevance h tabs query = tabs)
   \<and> (truthy query \<and> trim (or_empty query) \<noteq> [] \<and> normalizeSearchText h query \<noteq> [] \<longrightarrow>
       (let q = normalizeSearchText h query;
            r = searchTabsWithRelevance h tabs query
        in mset r = mset (filter (\<lambda>t. 0 < spec_score h q t) tabs)
           \<and> sorted_wrt (\<lambda>a b. spec_score h q a \<ge> spec_score h q b) r
           \<and> (\<forall>k. filter (\<lambda>t. spec_score h q t = k) r
                  = filter (\<lambda>t. spec_score h q t = k \<and> 0 < k) tabs)))"
proof (intro conjI impI)
  show "tab_score h nq t = spec_score h nq t"
    by (rule tab_score_eq_spec_score)
next
  assume "\<not> truthy query \<or> trim (or_empty query) = [] \<or> normalizeSearchText h query = []"
  then show "searchTabsWithRelevance h tabs query = tabs"
    by (auto simp: searchTabsWithRelevance_def Let_def)
next
  assume a: "truthy query \<and> trim (or_empty query) \<noteq> [] \<and> normalizeSearchText h query \<noteq> []"
  let ?q = "normalizeSearchText h query"
  let ?sc = "spec_score h ?q"
  let ?r = "searchTabsWithRelevance h tabs query"
  have r: "?r = sort_key (\<lambda>t. - ?sc t) (filter (\<lambda>t. 0 < ?sc t) tabs)"
    using a by (simp add: searchTabsWithRelevance_ranked)
  have m: "mset ?r = mset (filter (\<lambda>t. 0 < ?sc t) tabs)"
    unfolding r by simp
  have "sorted (map (\<lambda>t. - ?sc t) ?r)"
    unfolding r by (rule sorted_sort_key)
  then have s: "sorted_wrt (\<lambda>a b. ?sc a \<ge> ?sc b) ?r"
    by (simp add: sorted_wrt_map)
  have st: "filter (\<lambda>t. ?sc t = k) ?r = filter (\<lambda>t. ?sc t = k \<and> 0 < k) tabs" for k
  proof -
    have "filter (\<lambda>t. ?sc t = k) ?r = filter (\<lambda>t. - ?sc t = - k) ?r"
      by simp
    also have "\<dots> = filter (\<lambda>t. - ?sc t = - k) (filter (\<lambda>t. 0 < ?sc t) tabs)"
      unfolding r by (rule sort_key_stable)
    also have "\<dots> = filter (\<lambda>t. ?sc t = k \<and> 0 < k) tabs"
      by (auto intro: filter_cong)
    finally show ?thesis .
  qed
  show "let q = ?q; r = ?r
        in mset r = mset (filter (\<lambda>t. 0 < spec_score h q t) tabs)
           \<and> sorted_wrt (\<lambda>a b. spec_score h q a \<ge> spec_score h q b) r
           \<and> (\<forall>k. filter (\<lambda>t. spec_score h q t = k) r
                  = filter (\<lambda>t. spec_score h q t = k \<and> 0 < k) tabs)"
    using m s st by (simp add: Let_def)
qed

theorem searchTabsWithRelevance_spec_witness:
  "truthy (Some (js ''Git''))
   \<and> trim (or_empty (Some (js ''Git''))) \<noteq> []
   \<and> normalizeSearchText example_host (Some (js ''Git'')) = js ''git''
   \<and> mset (searchTabsWithRelevance example_host example_tabs (Some (js ''Git'')))
       = mset (filter (\<lambda>t. 0 < spec_score example_host (js ''git'') t) example_tabs)
   \<and> sorted_wrt (\<lambda>a b. spec_score example_host (js ''git'') a \<ge> spec_score example_host (js ''git'') b)
        (searchTabsWithRelevance example_host example_tabs (Some (js ''Git'')))
   \<and> filter (\<lambda>t. spec_score example_host (js ''git'') t = 10)
        (searchTabsWithRelevance example_host example_tabs (Some (js ''Git'')))
       = filter (\<lambda>t. spec_score example_host (js ''git'') t = 10 \<and> (0::int) < 10) example_tabs
   \<and> searchTabsWithRelevance example_host example_tabs (Some (js ''Git''))
       = [mk_tab ''3'' ''https://github.com/x'' ''github.com'' ''GitHub'',
          mk_tab ''1'' ''https://digital.com/'' ''digital.com'' ''Shop'',
          mk_tab ''4'' ''https://digital.com/2'' ''digital.com'' ''Store'']
   \<and> trim (or_empty (Some (js ''  ''))) = []
   \<and> searchTabsWithRelevance example_host example_tabs (Some (js ''  '')) = example_tabs
   \<and> searchTabsWithRelevance example_host example_tabs None = example_tabs"
  (is "?A \<and> ?B \<and> ?C \<and> ?D \<and> ?E \<and> ?F \<and> ?G \<and> ?H \<and> ?I \<and> ?J")
proof -
  have a: ?A by (simp add: truthy_def js_def)
  have b: ?B by (simp add: trim_def is_whitespace_def js_def or_empty_def)
  have c: ?C
    by (simp add: normalizeSearchText_def truthy_def or_empty_def example_host_def
        ascii_lower_def trim_def is_whitespace_def js_def)
  have c': "normalizeSearchText example_host (Some (js ''Git'')) \<noteq> []"
    unfolding c by (simp add: js_def)
  note t = searchTabsWithRelevance_spec [of example_host _ _ "Some (js ''Git'')" example_tabs]
  from t a b c' have
    "let q = normalizeSearchText example_host (Some (js ''Git''));
         r = searchTabsWithRelevance example_host example_tabs (Some (js ''Git''))
     in mset r = mset (filter (\<lambda>t. 0 < spec_score example_host q t) example_tabs)
        \<and> sorted_wrt (\<lambda>a b. spec_score example_host q a \<ge> spec_score example_host q b) r
        \<and> (\<forall>k. filter (\<lambda>t. spec_score example_host q t = k) r
               = filter (\<lambda>t. spec_score example_host q t = k \<and> 0 < k) example_tabs)"
    by blast
  then have d: ?D and e: ?E and f: ?F
    unfolding Let_def c by blast+
  have g: ?G
    by (simp add: example_tabs_def normalizeSearchText_def truthy_def or_empty_def
        example_host_def ascii_lower_def trim_def is_whitespace_def js_def mk_tab_def
        tab_score_def Let_def searchTabsWithRelevance_def array_sort_def)
  have h: ?H by (simp add: trim_def is_whitespace_def js_def or_empty_def)
  note t2 = searchTabsWithRelevance_spec [of example_host _ _ "Some (js ''  '')" example_tabs]
  from t2 h have i: ?I by blast
  have n: "\<not> truthy None" by (simp add: truthy_def)
  note t3 = searchTabsWithRelevance_spec [of example_host _ _ None example_tabs]
  from t3 n have j: ?J by blast
  from a b c d e f g h i j show ?thesis by blast
qed

section \<open>Grouping by domain\<close>

lemma set_first_seen [simp]: "set (first_seen xs) = set xs"
  by (induction xs) auto

lemma distinct_first_seen [simp]: "distinct (first_seen xs)"
  by (induction xs) (auto simp: distinct_removeAll)

lemma first_seen_snoc:
  "first_seen (xs @ [x]) = (if x \<in> set xs then first_seen xs else first_seen xs @ [x])"
  by (induction xs) auto

lemma length_sort_insert [simp]: "length (sort_insert c x ys) = Suc (length ys)"
  by (induction ys) auto

lemma mset_sort_insert [simp]: "mset (sort_insert c x ys) = add_mset x (mset ys)"
  by (induction ys) auto

lemma mset_array_sort [simp]: "mset (array_sort c xs) = mset xs"
  by (induction xs) (simp_all add: array_sort_def)

lemma length_array_sort [simp]: "length (array_sort c xs) = length xs"
  by (induction xs) (simp_all add: array_sort_def)

lemma mset_take_drop: "mset (take n xs) + mset (drop n xs) = mset xs"
  by (metis append_take_drop_id mset_append)

lemma mset_binary_insertion [simp]:
  "mset (binary_insertion c sortedPart rest) = mset sortedPart + mset rest"
proof (induction rest arbitrary: sortedPart)
  case Nil
  then show ?case by simp
next
  case (Cons pivot rest)
  show ?case
    by (simp add: Cons.IH Let_def mset_take_drop)
qed

lemma mset_engine_sort [simp]: "mset (engine_sort c xs) = mset xs"
proof (cases xs)
  case Nil
  then show ?thesis by (simp add: engine_sort_def)
next
  case (Cons x ys)
  show ?thesis
  proof (cases ys)
    case Nil
    with Cons show ?thesis by (simp add: engine_sort_def)
  next
    case (Cons y rest)
    with \<open>xs = x # ys\<close> have xs: "xs = x # y # rest" by simp
    let ?n = "2 + run_rest c (c y x < 0) y rest"
    have "mset (engine_sort c xs) = mset (take ?n xs) + mset (drop ?n xs)"
      unfolding xs engine_sort_def by (simp add: Let_def del: take_Suc_Cons drop_Suc_Cons)
    then show ?thesis by (simp only: mset_take_drop)
  qed
qed

lemma length_engine_sort [simp]: "length (engine_sort c xs) = length xs"
  by (metis mset_engine_sort size_mset)

text \<open>
  A group with a tab that has no date: for the dates 1, 3, none, 2 the engine returns the
  tabs in the order 3, 2, 1, none.
\<close>

lemma engine_sort_missing_date:
  "map dateAdded (engine_sort date_compare
     [(mk_tab ''0'' ''https://a.com/0'' ''a.com'' ''T0'')\<lparr>dateAdded := Some 1\<rparr>,
      (mk_tab ''1'' ''https://a.com/1'' ''a.com'' ''T1'')\<lparr>dateAdded := Some 3\<rparr>,
      (mk_tab ''2'' ''https://a.com/2'' ''a.com'' ''T2'')\<lparr>dateAdded := None\<rparr>,
      (mk_tab ''3'' ''https://a.com/3'' ''a.com'' ''T3'')\<lparr>dateAdded := Some 2\<rparr>])
   = [Some 3, Some 2, Some 1, None]"
  by code_simp

text \<open>Objects whose keys are listed by \<open>ds\<close> and whose values are given by \<open>f\<close>.\<close>

lemma map_of_tabulate:
  "map_of (map (\<lambda>d. (d, f d)) ds) k = (if k \<in> set ds then Some (f k) else None)"
  by (induction ds) auto

lemma obj_put_new: "k \<notin> fst ` set obj \<Longrightarrow> obj_put k v obj = obj @ [(k, v)]"
  by (induction obj) auto

lemma obj_put_tabulate:
  "distinct ds \<Longrightarrow> k \<in> set ds \<Longrightarrow>
     obj_put k v (map (\<lambda>d. (d, f d)) ds) = map (\<lambda>d. (d, if d = k then v else f d)) ds"
proof (induction ds)
  case Nil
  then show ?case by simp
next
  case (Cons a ds)
  show ?case
  proof (cases "a = k")
    case True
    with Cons.prems have "k \<notin> set ds" by simp
    then have "map (\<lambda>d. (d, if d = k then v else f d)) ds = map (\<lambda>d. (d, f d)) ds"
      by (intro map_cong) auto
    with True show ?thesis by simp
  next
    case False
    with Cons show ?thesis by simp
  qed
qed

text \<open>The groups after the first loop has seen the tabs \<open>ts\<close>.\<close>

lemma group_step_tabulate:
  assumes ds: "ds = first_seen (map (group_key h) pre)"
  shows "group_step h (map (\<lambda>d. (d, filter (\<lambda>t. group_key h t = d) pre)) ds) tab =
     (if group_key h tab \<notin> set ds \<and> group_key h tab \<in> set object_prototype_keys
      then Inl TypeError
      else Inr (map (\<lambda>d. (d, filter (\<lambda>t. group_key h t = d) (pre @ [tab])))
                  (first_seen (map (group_key h) (pre @ [tab])))))"
proof -
  let ?k = "group_key h tab"
  let ?f = "\<lambda>d. filter (\<lambda>t. group_key h t = d) pre"
  let ?g = "map (\<lambda>d. (d, ?f d)) ds"
  have dist: "distinct ds" and sds: "set ds = group_key h ` set pre"
    by (simp_all add: ds)
  have fs: "first_seen (map (group_key h) (pre @ [tab])) = (if ?k \<in> set ds then ds else ds @ [?k])"
    using first_seen_snoc [of "map (group_key h) pre" ?k] by (simp add: ds)
  show ?thesis
  proof (cases "?k \<in> set ds")
    case True
    have "group_step h ?g tab = Inr (obj_put ?k (?f ?k @ [tab]) ?g)"
      using True by (simp add: group_step_def obj_get_def map_of_tabulate Let_def)
    also have "obj_put ?k (?f ?k @ [tab]) ?g = map (\<lambda>d. (d, if d = ?k then ?f ?k @ [tab] else ?f d)) ds"
      using dist True by (rule obj_put_tabulate)
    also have "\<dots> = map (\<lambda>d. (d, filter (\<lambda>t. group_key h t = d) (pre @ [tab]))) ds"
      by (intro map_cong) auto
    finally have calc: "group_step h ?g tab =
        Inr (map (\<lambda>d. (d, filter (\<lambda>t. group_key h t = d) (pre @ [tab]))) ds)" .
    show ?thesis unfolding fs calc using True by simp
  next
    case False
    show ?thesis
    proof (cases "?k \<in> set object_prototype_keys")
      case True
      with False show ?thesis
        by (simp add: group_step_def obj_get_def map_of_tabulate Let_def)
    next
      case notproto: False
      have nk: "?k \<notin> fst ` set ?g"
        using False by (auto simp: image_iff)
      have g1: "obj_put ?k [] ?g = ?g @ [(?k, [])]"
        using nk by (rule obj_put_new)
      have "group_key h t \<noteq> ?k" if "t \<in> set pre" for t
      proof
        assume "group_key h t = ?k"
        moreover from that have "group_key h t \<in> set ds" by (simp add: sds)
        ultimately show False using False by simp
      qed
      then have pre_empty: "?f ?k = []"
        by (simp add: filter_empty_conv)
      have m: "map_of (?g @ [(?k, [])]) ?k = Some []"
        using False by (simp add: map_of_tabulate map_add_def split: option.splits)
      have put2: "obj_put ?k ([] @ [tab]) (?g @ [(?k, [])]) = ?g @ [(?k, [tab])]"
        using False by (induction ds) auto
      have "group_step h ?g tab = Inr (?g @ [(?k, [tab])])"
        using False notproto m put2
        by (simp add: group_step_def obj_get_def map_of_tabulate Let_def g1)
      also have "?g @ [(?k, [tab])] =
           map (\<lambda>d. (d, filter (\<lambda>t. group_key h t = d) (pre @ [tab]))) (ds @ [?k])"
        using False pre_empty by (auto intro: map_cong)
      finally have calc: "group_step h ?g tab =
        Inr (map (\<lambda>d. (d, filter (\<lambda>t. group_key h t = d) (pre @ [tab]))) (ds @ [?k]))" .
      show ?thesis unfolding fs calc using False notproto by simp
    qed
  qed
qed

lemma group_loop_grouped:
  "\<forall>t\<in>set pre. group_key h t \<notin> set object_prototype_keys \<Longrightarrow>
   group_loop h ts (grouped h pre) =
     (if \<forall>t\<in>set ts. group_key h t \<notin> set object_prototype_keys
      then Inr (grouped h (pre @ ts)) else Inl TypeError)"
proof (induction ts arbitrary: pre)
  case Nil
  then show ?case by simp
next
  case (Cons tab ts)
  let ?ds = "first_seen (map (group_key h) pre)"
  have step: "group_step h (grouped h pre) tab =
     (if group_key h tab \<notin> set ?ds \<and> group_key h tab \<in> set object_prototype_keys
      then Inl TypeError else Inr (grouped h (pre @ [tab])))"
    unfolding grouped_def by (rule group_step_tabulate) simp
  show ?case
  proof (cases "group_key h tab \<in> set object_prototype_keys")
    case True
    with Cons.prems have "group_key h tab \<notin> set ?ds" by auto
    with True show ?thesis by (simp add: step)
  next
    case False
    with Cons.prems have "\<forall>t\<in>set (pre @ [tab]). group_key h t \<notin> set object_prototype_keys"
      by auto
    from Cons.IH [OF this] False show ?thesis by (simp add: step)
  qed
qed

lemma groupTabsByDomain_conv:
  "groupTabsByDomain h tabs =
     (if \<forall>t\<in>set tabs. group_key h t \<notin> set object_prototype_keys
      then Inr (map (\<lambda>d. (d, engine_sort date_compare (filter (\<lambda>t. group_key h t = d) tabs)))
                  (first_seen (map (group_key h) tabs)))
      else Inl TypeError)"
proof -
  have e: "grouped h [] = []" by (simp add: grouped_def)
  have "group_loop h tabs [] =
     (if \<forall>t\<in>set tabs. group_key h t \<notin> set object_prototype_keys
      then Inr (grouped h tabs) else Inl TypeError)"
    using group_loop_grouped [of "[]" h tabs] by (simp add: e)
  then show ?thesis
    by (simp add: groupTabsByDomain_def grouped_def comp_def)
qed

lemma sum_list_indicator:
  "distinct ds \<Longrightarrow> (\<Sum>d\<leftarrow>ds. if x = d then 1 else 0) = (if x \<in> set ds then 1 else (0::int))"
  by (induction ds) auto

lemma sum_key_count:
  "distinct ds \<Longrightarrow> group_key h ` set ts \<subseteq> set ds \<Longrightarrow>
     (\<Sum>d\<leftarrow>ds. key_count h ts d) = int (length ts)"
proof (induction ts)
  case Nil
  then show ?case by (simp add: key_count_def)
next
  case (Cons t ts)
  have "(\<Sum>d\<leftarrow>ds. key_count h (t # ts) d)
      = (\<Sum>d\<leftarrow>ds. (if group_key h t = d then 1 else 0) + key_count h ts d)"
    by (intro arg_cong [where f = sum_list] map_cong) (auto simp: key_count_def)
  also have "\<dots> = (\<Sum>d\<leftarrow>ds. if group_key h t = d then 1 else 0) + (\<Sum>d\<leftarrow>ds. key_count h ts d)"
    by (simp add: sum_list_addf)
  also have "\<dots> = 1 + int (length ts)"
    using Cons by (simp add: sum_list_indicator)
  finally show ?case by simp
qed

lemma mset_key_order [simp]: "mset (key_order ks) = mset ks"
  by (simp add: key_order_def)

lemma key_order_no_index: "\<forall>k\<in>set ks. \<not> is_array_index k \<Longrightarrow> key_order ks = ks"
  by (simp add: key_order_def filter_empty_conv [THEN iffD2])

lemma set_key_order [simp]: "set (key_order ks) = set ks"
  by (metis mset_key_order set_mset_mset)

lemma getSortedDomainGroups_conv:
  assumes "\<forall>t\<in>set tabs. group_key h t \<notin> set object_prototype_keys"
  shows "getSortedDomainGroups h tabs =
     Inr (map (\<lambda>d. \<lparr> g_domain = d,
                      g_displayName = getDomainDisplayName h d,
                      g_tabs = engine_sort date_compare (filter (\<lambda>t. group_key h t = d) tabs),
                      g_count = key_count h tabs d \<rparr>)
            (sort_key (\<lambda>d. - key_count h tabs d)
               (key_order (first_seen (map (group_key h) tabs)))))"
proof -
  let ?ks = "first_seen (map (group_key h) tabs)"
  let ?G = "map (\<lambda>d. (d, engine_sort date_compare (filter (\<lambda>t. group_key h t = d) tabs))) ?ks"
  have g: "groupTabsByDomain h tabs = Inr ?G"
    using assms by (simp add: groupTabsByDomain_conv)
  have gl: "group_length ?G d = key_count h tabs d" for d
  proof (cases "d \<in> set ?ks")
    case True
    then show ?thesis
      by (simp add: group_length_def map_of_tabulate key_count_def)
  next
    case False
    then have "filter (\<lambda>t. group_key h t = d) tabs = []"
      by (auto simp: filter_empty_conv)
    with False show ?thesis
      by (simp add: group_length_def map_of_tabulate key_count_def)
  qed
  have keys: "object_keys ?G = key_order ?ks"
    by (simp add: object_keys_def comp_def)
  let ?sorted = "sort_key (\<lambda>d. - key_count h tabs d) (key_order ?ks)"
  have srt: "array_sort (\<lambda>a b. key_count h tabs b - key_count h tabs a) (object_keys ?G) = ?sorted"
    unfolding keys by (simp add: array_sort_by_key)
  have tabs_of: "or_empty (map_of ?G d) = engine_sort date_compare (filter (\<lambda>t. group_key h t = d) tabs)"
    if "d \<in> set ?sorted" for d
    using that by (simp add: map_of_tabulate)
  have "getSortedDomainGroups h tabs =
      Inr (map (\<lambda>d. \<lparr> g_domain = d, g_displayName = getDomainDisplayName h d,
                       g_tabs = or_empty (map_of ?G d), g_count = key_count h tabs d \<rparr>) ?sorted)"
    unfolding getSortedDomainGroups_def g by (simp add: Let_def srt gl)
  also have "map (\<lambda>d. \<lparr> g_domain = d, g_displayName = getDomainDisplayName h d,
                       g_tabs = or_empty (map_of ?G d), g_count = key_count h tabs d \<rparr>) ?sorted
     = map (\<lambda>d. \<lparr> g_domain = d, g_displayName = getDomainDisplayName h d,
                      g_tabs = engine_sort date_compare (filter (\<lambda>t. group_key h t = d) tabs),
                      g_count = key_count h tabs d \<rparr>) ?sorted"
    by (rule map_cong) (simp_all add: tabs_of)
  finally show ?thesis .
qed

lemma getSortedDomainGroups_TypeError:
  "\<not> (\<forall>t\<in>set tabs. group_key h t \<notin> set object_prototype_keys) \<Longrightarrow>
     getSortedDomainGroups h tabs = Inl TypeError"
  by (simp add: getSortedDomainGroups_def groupTabsByDomain_conv)

text \<open>
  C5 (as the code has it). \<open>getSortedDomainGroups\<close> returns groups whenever no tab's group
  key is the name of a member inherited from \<open>Object.prototype\<close>. For the groups it
  returns: the counts add up to the number of tabs; the groups are in descending order
  of count; there is one group for each group key; each group's count is the length of
  its tab list, which holds exactly the tabs with the group's key; and groups of equal
  count are in the order in which \<open>Object.keys\<close> lists their keys, that is keys that are
  array indices first, in ascending numeric order, then the other keys in the order in
  which they are first encountered. When no group key is an array index, groups of equal
  count are therefore in first-encountered order.
\<close>

theorem getSortedDomainGroups_spec:
  "((\<forall>t\<in>set tabs. group_key h t \<notin> set object_prototype_keys) \<longrightarrow>
      (\<exists>gs. getSortedDomainGroups h tabs = Inr gs))
   \<and> (\<forall>gs. getSortedDomainGroups h tabs = Inr gs \<longrightarrow>
        sum_list (map g_count gs) = int (length tabs)
        \<and> sorted_wrt (\<lambda>a b. g_count a \<ge> g_count b) gs
        \<and> mset (map g_domain gs) = mset (first_seen (map (group_key h) tabs))
        \<and> (\<forall>g\<in>set gs. g_count g = int (length (g_tabs g))
              \<and> mset (g_tabs g) = mset (filter (\<lambda>t. group_key h t = g_domain g) tabs))
        \<and> (\<forall>k. map g_domain (filter (\<lambda>g. g_count g = k) gs)
               = filter (\<lambda>d. key_count h tabs d = k)
                   (key_order (first_seen (map (group_key h) tabs))))
        \<and> ((\<forall>t\<in>set tabs. \<not> is_array_index (group_key h t)) \<longrightarrow>
             (\<forall>k. map g_domain (filter (\<lambda>g. g_count g = k) gs)
                = filter (\<lambda>d. key_count h tabs d = k) (first_seen (map (group_key h) tabs)))))"
proof (intro conjI impI allI)
  assume "\<forall>t\<in>set tabs. group_key h t \<notin> set object_prototype_keys"
  then show "\<exists>gs. getSortedDomainGroups h tabs = Inr gs"
    by (simp add: getSortedDomainGroups_conv)
next
  fix gs
  assume r: "getSortedDomainGroups h tabs = Inr gs"
  let ?ks = "first_seen (map (group_key h) tabs)"
  let ?cnt = "key_count h tabs"
  let ?sorted = "sort_key (\<lambda>d. - ?cnt d) (key_order ?ks)"
  let ?mk = "\<lambda>d. \<lparr> g_domain = d, g_displayName = getDomainDisplayName h d,
                      g_tabs = engine_sort date_compare (filter (\<lambda>t. group_key h t = d) tabs),
                      g_count = ?cnt d \<rparr>"
  have ok: "\<forall>t\<in>set tabs. group_key h t \<notin> set object_prototype_keys"
    using r getSortedDomainGroups_TypeError [of tabs h] by auto
  have gs: "gs = map ?mk ?sorted"
    using r getSortedDomainGroups_conv [OF ok] by simp
  have dom: "map g_domain gs = ?sorted" and cnt: "map g_count gs = map ?cnt ?sorted"
    by (simp_all add: gs comp_def)
  have ms: "mset ?sorted = mset ?ks"
    by simp
  show "mset (map g_domain gs) = mset ?ks"
    by (simp add: dom)
  have "sum_list (map ?cnt ?sorted) = sum_mset (image_mset ?cnt (mset ?sorted))"
    by (metis mset_map sum_mset_sum_list)
  also have "\<dots> = sum_list (map ?cnt ?ks)"
    unfolding ms by (metis mset_map sum_mset_sum_list)
  also have "\<dots> = int (length tabs)"
    by (rule sum_key_count) auto
  finally show "sum_list (map g_count gs) = int (length tabs)"
    by (simp add: cnt)
  have "sorted (map (\<lambda>d. - ?cnt d) ?sorted)"
    by (rule sorted_sort_key)
  then have "sorted_wrt (\<lambda>a b. ?cnt a \<ge> ?cnt b) ?sorted"
    by (simp add: sorted_wrt_map)
  then show "sorted_wrt (\<lambda>a b. g_count a \<ge> g_count b) gs"
    by (simp add: gs sorted_wrt_map)
  show "\<forall>g\<in>set gs. g_count g = int (length (g_tabs g))
              \<and> mset (g_tabs g) = mset (filter (\<lambda>t. group_key h t = g_domain g) tabs)"
    by (auto simp: gs key_count_def)
  have stable: "map g_domain (filter (\<lambda>g. g_count g = k) gs)
               = filter (\<lambda>d. ?cnt d = k) (key_order ?ks)" for k
  proof -
    have "map g_domain (filter (\<lambda>g. g_count g = k) gs) = filter (\<lambda>d. ?cnt d = k) ?sorted"
      by (simp add: gs filter_map comp_def)
    also have "\<dots> = filter (\<lambda>d. - ?cnt d = - k) ?sorted"
      by simp
    also have "\<dots> = filter (\<lambda>d. - ?cnt d = - k) (key_order ?ks)"
      by (rule sort_key_stable)
    finally show ?thesis by simp
  qed
  then show "map g_domain (filter (\<lambda>g. g_count g = k) gs)
               = filter (\<lambda>d. ?cnt d = k) (key_order ?ks)" for k .
  assume "\<forall>t\<in>set tabs. \<not> is_array_index (group_key h t)"
  then have "key_order ?ks = ?ks"
    by (intro key_order_no_index) auto
  with stable show "map g_domain (filter (\<lambda>g. g_count g = k) gs)
                = filter (\<lambda>d. ?cnt d = k) ?ks" for k
    by simp
qed

theorem getSortedDomainGroups_spec_witness:
  "list_all (\<lambda>t. group_key example_host t \<notin> set object_prototype_keys) example_tabs
   \<and> list_all (\<lambda>t. \<not> is_array_index (group_key example_host t)) example_tabs
   \<and> (\<exists>gs. getSortedDomainGroups example_host example_tabs = Inr gs
         \<and> sum_list (map g_count gs) = 4
         \<and> sorted_wrt (\<lambda>a b. g_count a \<ge> g_count b) gs
         \<and> map g_domain (filter (\<lambda>g. g_count g = 1) gs) = [js ''example.org'', js ''github.com''])"
proof -
  have keys: "map (group_key example_host) example_tabs
      = [js ''digital.com'', js ''example.org'', js ''github.com'', js ''digital.com'']"
    by (simp add: example_tabs_def group_key_def mk_tab_def truthy_def js_def)
  have a: "list_all (\<lambda>t. group_key example_host t \<notin> set object_prototype_keys) example_tabs"
    by (simp add: example_tabs_def group_key_def mk_tab_def truthy_def js_def
        object_prototype_keys_def)
  have b: "list_all (\<lambda>t. \<not> is_array_index (group_key example_host t)) example_tabs"
    by (simp add: example_tabs_def group_key_def mk_tab_def truthy_def js_def
        is_array_index_def is_digit_def)
  note t = getSortedDomainGroups_spec [of example_tabs example_host]
  from t a obtain gs where gs: "getSortedDomainGroups example_host example_tabs = Inr gs"
    by (auto simp: list_all_iff)
  from t gs have s: "sum_list (map g_count gs) = int (length example_tabs)"
    and o: "sorted_wrt (\<lambda>a b. g_count a \<ge> g_count b) gs"
    by blast+
  from t gs b have st: "map g_domain (filter (\<lambda>g. g_count g = 1) gs)
        = filter (\<lambda>d. key_count example_host example_tabs d = 1)
            (first_seen (map (group_key example_host) example_tabs))"
    by (auto simp: list_all_iff)
  have fs: "filter (\<lambda>d. key_count example_host example_tabs d = 1)
            (first_seen (map (group_key example_host) example_tabs))
       = [js ''example.org'', js ''github.com'']"
    unfolding keys
    by (simp add: key_count_def example_tabs_def group_key_def mk_tab_def truthy_def js_def)
  have len: "int (length example_tabs) = 4"
    by (simp add: example_tabs_def)
  from a b gs s o st fs len show ?thesis
    by auto
qed

text \<open>
  C5 (as stated) fails in its last part: an object lists a key that is an array index
  before its other keys, whatever the order of creation. For two tabs with the group
  keys \<open>b.com\<close> and \<open>7\<close>, in this order, both groups have count 1 and the group of \<open>7\<close>
  comes first.
\<close>

theorem getSortedDomainGroups_numeric_key_first:
  "first_seen (map (group_key example_host)
       [mk_tab ''1'' ''https://b.com/'' ''b.com'' ''B'', mk_tab ''2'' ''app://7/'' ''7'' ''Seven''])
     = [js ''b.com'', js ''7'']
   \<and> map_sum id (map g_count)
       (getSortedDomainGroups example_host
          [mk_tab ''1'' ''https://b.com/'' ''b.com'' ''B'', mk_tab ''2'' ''app://7/'' ''7'' ''Seven''])
     = Inr [1, 1]
   \<and> map_sum id (map g_domain)
       (getSortedDomainGroups example_host
          [mk_tab ''1'' ''https://b.com/'' ''b.com'' ''B'', mk_tab ''2'' ''app://7/'' ''7'' ''Seven''])
     = Inr [js ''7'', js ''b.com'']"
proof -
  let ?tabs = "[mk_tab ''1'' ''https://b.com/'' ''b.com'' ''B'', mk_tab ''2'' ''app://7/'' ''7'' ''Seven'']"
  have keys: "map (group_key example_host) ?tabs = [js ''b.com'', js ''7'']"
    by (simp add: group_key_def mk_tab_def truthy_def js_def)
  have fs: "first_seen (map (group_key example_host) ?tabs) = [js ''b.com'', js ''7'']"
    unfolding keys by (simp add: js_def)
  have ok: "\<forall>t\<in>set ?tabs. group_key example_host t \<notin> set object_prototype_keys"
    by (simp add: group_key_def mk_tab_def truthy_def js_def object_prototype_keys_def)
  have idx: "is_array_index (js ''7'')" "\<not> is_array_index (js ''b.com'')"
    by (simp_all add: is_array_index_def is_digit_def index_value_def js_def)
  have ko: "key_order [js ''b.com'', js ''7''] = [js ''7'', js ''b.com'']"
    using idx by (simp add: key_order_def)
  have kc: "key_count example_host ?tabs (js ''7'') = 1" "key_count example_host ?tabs (js ''b.com'') = 1"
    by (simp_all add: key_count_def group_key_def mk_tab_def truthy_def js_def)
  have srt: "sort_key (\<lambda>d. - key_count example_host ?tabs d) [js ''7'', js ''b.com'']
      = [js ''7'', js ''b.com'']"
    by (simp add: kc)
  note r = getSortedDomainGroups_conv [OF ok, unfolded fs ko srt]
  show ?thesis
    unfolding r fs by (simp add: kc)
qed

text \<open>
  A group key that names an inherited member makes the call throw: \<open>groups['constructor']\<close>
  is the function \<open>Object\<close>, which is truthy and has no \<open>push\<close>.
\<close>

lemma getSortedDomainGroups_constructor:
  "getSortedDomainGroups example_host
     [mk_tab ''1'' ''http://constructor/'' ''constructor'' ''C''] = Inl TypeError"
proof -
  have "\<not> (\<forall>t\<in>set [mk_tab ''1'' ''http://constructor/'' ''constructor'' ''C''].
            group_key example_host t \<notin> set object_prototype_keys)"
    by (simp add: group_key_def mk_tab_def truthy_def js_def object_prototype_keys_def)
  then show ?thesis by (rule getSortedDomainGroups_TypeError)
qed

end
